theory Spec2Isabelle
  imports Complex_Main "HOL-Library.Word" "HOL-Library.AList"
begin

unbundle bit_operations_syntax

section \<open>Python values and errors\<close>

text \<open>
  The configuration module \<^verbatim>\<open>app/config.py\<close> is a class body that reads environment
  variables, builds a Kerko \<^verbatim>\<open>Composer\<close> and registers fields, facets, a badge and a
  sort option with it. Values that flow through the registered callbacks are Python
  values; exceptions are values of the type \<open>pyerr\<close>.

  Strings are lists of 8-bit characters, read as the code points U+0000 to U+00FF.
\<close>

datatype pyval =
    PNone
  | PBool bool
  | PInt int
  | PStr string
  | PList "pyval list"

datatype pyerr =
    EnvError string
  | EnvValidationError string
  | KeyError string
  | AttributeError
  | TypeError
  | ValueError

text \<open>Python's \<^verbatim>\<open>bool(v)\<close>.\<close>

fun truthy :: "pyval \<Rightarrow> bool" where
  "truthy PNone = False"
| "truthy (PBool b) = b"
| "truthy (PInt i) = (i \<noteq> 0)"
| "truthy (PStr s) = (s \<noteq> [])"
| "truthy (PList vs) = (vs \<noteq> [])"

section \<open>The standard library: regular expressions\<close>

text \<open>
  The module \<^verbatim>\<open>re\<close> belongs to the Python standard library, not to this repository.
  The model covers the pattern syntax that \<^verbatim>\<open>config.py\<close> uses: literal characters,
  \<^verbatim>\<open>.\<close>, \<^verbatim>\<open>\s\<close>, \<^verbatim>\<open>\S\<close>, the greedy repetitions \<^verbatim>\<open>*\<close> and \<^verbatim>\<open>+\<close> of one
  character class, the anchors \<^verbatim>\<open>^\<close> and \<^verbatim>\<open>$\<close>, and one capturing group.
  Matching is the backtracking search of \<^verbatim>\<open>re\<close>: a greedy repetition takes the longest
  run first and gives characters back one at a time.
\<close>

definition IGNORECASE :: nat where "IGNORECASE = 2"
definition MULTILINE :: nat where "MULTILINE = 8"

definition has_flag :: "nat \<Rightarrow> nat \<Rightarrow> bool" where
  "has_flag flags f = (flags AND f \<noteq> 0)"

definition backslash :: char where "backslash = CHR 0x5C"
definition newline :: char where "newline = CHR 0x0A"

text \<open>\<^verbatim>\<open>str.isspace\<close> on one character, which is also what \<^verbatim>\<open>\s\<close> matches.\<close>

definition isspace :: "char \<Rightarrow> bool" where
  "isspace c = (of_char c \<in> {9, 10, 11, 12, 13, 28, 29, 30, 31, 32, 133, 160 :: nat})"

definition ascii_lower :: "char \<Rightarrow> char" where
  "ascii_lower c =
     (if 65 \<le> (of_char c :: nat) \<and> (of_char c :: nat) \<le> 90
      then char_of (of_char c + 32 :: nat) else c)"

datatype cls = Lit char | Dot | Space | NonSpace

datatype tok = Bol | Eol | One cls | Star cls | Plus cls | GOpen | GClose

fun cls_ok :: "nat \<Rightarrow> cls \<Rightarrow> char \<Rightarrow> bool" where
  "cls_ok flags (Lit c) a =
     (if has_flag flags IGNORECASE then ascii_lower a = ascii_lower c else a = c)"
| "cls_ok flags Dot a = (a \<noteq> newline)"
| "cls_ok flags Space a = isspace a"
| "cls_ok flags NonSpace a = (\<not> isspace a)"

text \<open>
  \<^verbatim>\<open>re.compile\<close>: the pattern string is read left to right; a repetition sign
  applies to the character class before it. A construct outside the modelled syntax
  gives \<open>None\<close>. The flag of \<open>compile_from\<close> tells that the last character was a
  backslash.
\<close>

definition special :: "char \<Rightarrow> bool" where
  "special c = (c \<in> set ''?{}[]|'')"

fun compile_from :: "tok list \<Rightarrow> bool \<Rightarrow> string \<Rightarrow> tok list option" where
  "compile_from acc esc [] = (if esc then None else Some (rev acc))"
| "compile_from acc True (c # cs) =
     (if c = CHR ''s'' then compile_from (One Space # acc) False cs
      else if c = CHR ''S'' then compile_from (One NonSpace # acc) False cs
      else None)"
| "compile_from acc False (c # cs) =
     (if c = backslash then compile_from acc True cs
      else if c = CHR ''^'' then compile_from (Bol # acc) False cs
      else if c = CHR ''$'' then compile_from (Eol # acc) False cs
      else if c = CHR ''('' then compile_from (GOpen # acc) False cs
      else if c = CHR '')'' then compile_from (GClose # acc) False cs
      else if c = CHR ''*'' then
        (case acc of One k # r \<Rightarrow> compile_from (Star k # r) False cs | _ \<Rightarrow> None)
      else if c = CHR ''+'' then
        (case acc of One k # r \<Rightarrow> compile_from (Plus k # r) False cs | _ \<Rightarrow> None)
      else if special c then None
      else if c = CHR ''.'' then compile_from (One Dot # acc) False cs
      else compile_from (One (Lit c) # acc) False cs)"

definition compile :: "string \<Rightarrow> tok list option" where
  "compile regex = compile_from [] False regex"

text \<open>The tokens of a pattern that is a literal text.\<close>

definition literal :: "string \<Rightarrow> tok list" where
  "literal w = map One (map Lit w)"

text \<open>
  A matcher state is the text before the current position, reversed, and the text
  from the current position on. A capture records where group 1 was opened and, once
  closed, its text.
\<close>

type_synonym mstate = "string \<times> string"

record cap =
  opened :: "string option"
  group1 :: "string option"

definition no_cap :: cap where
  "no_cap = \<lparr>opened = None, group1 = None\<rparr>"

definition at_bol :: "nat \<Rightarrow> mstate \<Rightarrow> bool" where
  "at_bol flags st =
     (fst st = [] \<or> (has_flag flags MULTILINE \<and> hd (fst st) = newline))"

definition at_eol :: "nat \<Rightarrow> mstate \<Rightarrow> bool" where
  "at_eol flags st =
     (snd st = [] \<or> snd st = [newline] \<or> (has_flag flags MULTILINE \<and> hd (snd st) = newline))"

definition advance :: "nat \<Rightarrow> mstate \<Rightarrow> mstate" where
  "advance n st = (rev (take n (snd st)) @ fst st, drop n (snd st))"

text \<open>
  \<open>retry k st lo n\<close> is the backtracking of a greedy repetition that can take at most
  \<open>n\<close> characters and must take at least \<open>lo\<close>: the continuation \<open>k\<close> is tried after
  \<open>n\<close> characters, then after \<open>n - 1\<close>, down to \<open>lo\<close>.
\<close>

fun retry :: "(mstate \<Rightarrow> 'r option) \<Rightarrow> mstate \<Rightarrow> nat \<Rightarrow> nat \<Rightarrow> 'r option" where
  "retry k st lo 0 = (if lo = 0 then k st else None)"
| "retry k st lo (Suc n) =
     (if Suc n < lo then None
      else case k (advance (Suc n) st) of
             Some r \<Rightarrow> Some r
           | None \<Rightarrow> retry k st lo n)"

definition run :: "nat \<Rightarrow> cls \<Rightarrow> string \<Rightarrow> nat" where
  "run flags k s = length (takeWhile (cls_ok flags k) s)"

primrec rmatch :: "tok list \<Rightarrow> nat \<Rightarrow> cap \<Rightarrow> mstate \<Rightarrow> (mstate \<times> cap) option" where
  "rmatch [] flags c st = Some (st, c)"
| "rmatch (t # ts) flags c st =
     (case t of
        Bol \<Rightarrow> if at_bol flags st then rmatch ts flags c st else None
      | Eol \<Rightarrow> if at_eol flags st then rmatch ts flags c st else None
      | One k \<Rightarrow>
          (case snd st of
             [] \<Rightarrow> None
           | a # r \<Rightarrow> if cls_ok flags k a then rmatch ts flags c (a # fst st, r) else None)
      | Star k \<Rightarrow> retry (rmatch ts flags c) st 0 (run flags k (snd st))
      | Plus k \<Rightarrow> retry (rmatch ts flags c) st 1 (run flags k (snd st))
      | GOpen \<Rightarrow> rmatch ts flags (c\<lparr>opened := Some (snd st)\<rparr>) st
      | GClose \<Rightarrow>
          rmatch ts flags
            (c\<lparr>group1 := map_option (\<lambda>s0. take (length s0 - length (snd st)) s0) (opened c)\<rparr>) st)"

text \<open>A match object: where the match starts and ends, and \<^verbatim>\<open>group(1)\<close>.\<close>

record rematch =
  mstart :: nat
  mend :: nat
  mgroup :: "string option"

text \<open>
  \<^verbatim>\<open>pattern.finditer\<close>: the matches from left to right, without overlap. After an
  empty match the scan moves one character on.
\<close>

function finditer_from :: "tok list \<Rightarrow> nat \<Rightarrow> mstate \<Rightarrow> rematch list" where
  "finditer_from ts flags st =
     (case rmatch ts flags no_cap st of
        None \<Rightarrow>
          (case snd st of
             [] \<Rightarrow> []
           | a # r \<Rightarrow> finditer_from ts flags (a # fst st, r))
      | Some (st', c) \<Rightarrow>
          \<lparr>mstart = length (fst st), mend = length (fst st'), mgroup = group1 c\<rparr> #
          (if length (snd st') < length (snd st) then finditer_from ts flags st'
           else case snd st of
                  [] \<Rightarrow> []
                | a # r \<Rightarrow> finditer_from ts flags (a # fst st, r)))"
  by pat_completeness auto

termination finditer_from
  by (relation "measure (\<lambda>(ts, flags, st). length (snd st))") auto

definition finditer :: "string \<Rightarrow> nat \<Rightarrow> string \<Rightarrow> (pyerr + rematch list)" where
  "finditer regex flags s =
     (case compile regex of
        None \<Rightarrow> Inl ValueError
      | Some ts \<Rightarrow> Inr (finditer_from ts flags ([], s)))"

text \<open>
  \<^verbatim>\<open>pattern.match(string, pos)\<close>: the match that starts at a position, if there
  is one. The anchors see the whole string.
\<close>

definition match_at :: "string \<Rightarrow> nat \<Rightarrow> string \<Rightarrow> nat \<Rightarrow> (mstate \<times> cap) option" where
  "match_at regex flags s pos =
     (case compile regex of
        None \<Rightarrow> None
      | Some ts \<Rightarrow> rmatch ts flags no_cap (rev (take pos s), drop pos s))"

text \<open>
  \<^verbatim>\<open>re.sub(pattern, repl, string, count)\<close> with a replacement text that holds no
  backslash: the first \<open>count\<close> matches (all of them when \<open>count\<close> is 0) are replaced.
\<close>

fun rebuild :: "string \<Rightarrow> string \<Rightarrow> nat \<Rightarrow> rematch list \<Rightarrow> string" where
  "rebuild repl s pos [] = drop pos s"
| "rebuild repl s pos (m # ms) =
     take (mstart m - pos) (drop pos s) @ repl @ rebuild repl s (mend m) ms"

definition re_sub :: "string \<Rightarrow> string \<Rightarrow> string \<Rightarrow> nat \<Rightarrow> pyerr + string" where
  "re_sub pattern repl s count =
     (case finditer pattern 0 s of
        Inl e \<Rightarrow> Inl e
      | Inr ms \<Rightarrow> Inr (rebuild repl s 0 (if count = 0 then ms else take count ms)))"

section \<open>The standard library: strings, paths, the environment\<close>

text \<open>\<^verbatim>\<open>str.split(sep)\<close> with a separator; an empty separator raises.\<close>

function split_from :: "string \<Rightarrow> string \<Rightarrow> string \<Rightarrow> string list" where
  "split_from sep acc [] = [rev acc]"
| "split_from sep acc (c # cs) =
     (if sep \<noteq> [] \<and> take (length sep) (c # cs) = sep
      then rev acc # split_from sep [] (drop (length sep) (c # cs))
      else split_from sep (c # acc) cs)"
  by pat_completeness auto

termination split_from
  by (relation "measure (\<lambda>(sep, acc, s). length s)") auto

definition str_split :: "string \<Rightarrow> string \<Rightarrow> pyerr + string list" where
  "str_split sep s = (if sep = [] then Inl ValueError else Inr (split_from sep [] s))"

text \<open>
  \<^verbatim>\<open>pathlib.Path\<close> on a POSIX system: a root (empty, \<^verbatim>\<open>/\<close> or \<^verbatim>\<open>//\<close>) and the
  components, with empty components and \<^verbatim>\<open>.\<close> dropped.
\<close>

record path =
  root :: string
  parts :: "string list"

definition path_root :: "string \<Rightarrow> string" where
  "path_root s =
     (if take 1 s \<noteq> ''/'' then []
      else if take 2 s = ''//'' \<and> take 3 s \<noteq> ''///'' then ''//''
      else ''/'')"

definition path_parts :: "string \<Rightarrow> string list" where
  "path_parts s = filter (\<lambda>p. p \<noteq> [] \<and> p \<noteq> ''.'') (split_from ''/'' [] s)"

definition Path :: "string \<Rightarrow> path" where
  "Path s = \<lparr>root = path_root s, parts = path_parts s\<rparr>"

definition parent :: "path \<Rightarrow> path" where
  "parent p = p\<lparr>parts := butlast (parts p)\<rparr>"

text \<open>The operator \<^verbatim>\<open>/\<close>: an absolute right operand replaces the left one.\<close>

definition joinpath :: "path \<Rightarrow> string \<Rightarrow> path" where
  "joinpath p s =
     (if path_root s \<noteq> [] then Path s else p\<lparr>parts := parts p @ path_parts s\<rparr>)"

fun join_with :: "string \<Rightarrow> string list \<Rightarrow> string" where
  "join_with sep [] = []"
| "join_with sep [x] = x"
| "join_with sep (x # y # ys) = x @ sep @ join_with sep (y # ys)"

definition path_str :: "path \<Rightarrow> string" where
  "path_str p =
     (if root p = [] \<and> parts p = [] then ''.'' else root p @ join_with ''/'' (parts p))"

text \<open>\<^verbatim>\<open>Path.absolute()\<close> reads the working directory of the process.\<close>

definition absolute :: "string \<Rightarrow> path \<Rightarrow> path" where
  "absolute cwd p =
     (if root p \<noteq> [] then p else (Path cwd)\<lparr>parts := parts (Path cwd) @ parts p\<rparr>)"

text \<open>
  The environment is a dictionary from names to strings. \<^verbatim>\<open>env.read_env()\<close> adds
  the variables of a \<^verbatim>\<open>.env\<close> file, when there is one, that the process environment
  does not set. A read without a default raises when the variable is not set. The
  parsers of \<^verbatim>\<open>env.bool\<close> and \<^verbatim>\<open>env.int\<close> belong to the library and are parameters.
\<close>

type_synonym environ = "string \<rightharpoonup> string"

definition read_env :: "environ option \<Rightarrow> environ \<Rightarrow> environ" where
  "read_env dotenv environ = (case dotenv of None \<Rightarrow> environ | Some f \<Rightarrow> f ++ environ)"

definition env_str :: "environ \<Rightarrow> string \<Rightarrow> string option \<Rightarrow> pyerr + string" where
  "env_str env name dflt =
     (case env name of
        Some v \<Rightarrow> Inr v
      | None \<Rightarrow> (case dflt of None \<Rightarrow> Inl (EnvError name) | Some d \<Rightarrow> Inr d))"

definition env_parsed :: "(string \<Rightarrow> 'a option) \<Rightarrow> environ \<Rightarrow> string \<Rightarrow> 'a \<Rightarrow> pyerr + 'a" where
  "env_parsed parse env name dflt =
     (case env name of
        None \<Rightarrow> Inr dflt
      | Some v \<Rightarrow> (case parse v of None \<Rightarrow> Inl (EnvValidationError name) | Some x \<Rightarrow> Inr x))"

text \<open>Sequencing of steps that may raise.\<close>

definition bind :: "pyerr + 'a \<Rightarrow> ('a \<Rightarrow> pyerr + 'b) \<Rightarrow> pyerr + 'b" where
  "bind r f = (case r of Inl e \<Rightarrow> Inl e | Inr x \<Rightarrow> f x)"

section \<open>The Kerko library\<close>

text \<open>
  Kerko is a dependency, not part of this repository. What \<^verbatim>\<open>config.py\<close> calls is
  modelled after the library's documented behaviour: the transformers
  \<^verbatim>\<open>find\<close> and \<^verbatim>\<open>split\<close>, the extractors that wrap them, the specification objects
  and the composer's dictionaries. What the composer holds before \<^verbatim>\<open>config.py\<close>
  touches it (its default fields, facets, sorts and badges), the translation
  function and the parsers of the environment library are parameters, gathered in
  the record \<open>lib\<close> together with the repository's own
  \<^verbatim>\<open>extra_field_cleaner\<close>, whose module is not part of the sources at hand.
\<close>

type_synonym transformer = "pyval \<Rightarrow> pyerr + pyval"

definition on_str :: "(string \<Rightarrow> pyerr + pyval) \<Rightarrow> transformer" where
  "on_str f v = (case v of PStr s \<Rightarrow> f s | _ \<Rightarrow> Inl TypeError)"

definition group_val :: "rematch \<Rightarrow> pyval" where
  "group_val m = (case mgroup m of None \<Rightarrow> PNone | Some g \<Rightarrow> PStr g)"

text \<open>
  \<^verbatim>\<open>transformers.find(regex, flags, max_matches)\<close> returns group 1 of the first
  \<open>max_matches\<close> matches, all of them when \<open>max_matches\<close> is 0; with
  \<open>max_matches = 1\<close> it returns one string, or \<open>None\<close> when nothing matches.
\<close>

definition find :: "string \<Rightarrow> nat \<Rightarrow> nat \<Rightarrow> transformer" where
  "find regex flags max_matches =
     on_str (\<lambda>s.
       bind (finditer regex flags s) (\<lambda>ms.
         let gs = map group_val (if max_matches = 0 then ms else take max_matches ms)
         in Inr (if max_matches = 1 then (case gs of [] \<Rightarrow> PNone | g # _ \<Rightarrow> g)
                 else PList gs)))"

definition split :: "string \<Rightarrow> transformer" where
  "split sep = on_str (\<lambda>s. bind (str_split sep s) (\<lambda>xs. Inr (PList (map PStr xs))))"

datatype extractor =
    ItemExtractor string string
  | ItemDataExtractor string
  | RawDataExtractor
  | InCollectionExtractor string
  | InCollectionBoostExtractor string real
  | TransformerExtractor extractor "transformer list"
  | MultiExtractor "extractor list"
  | LibraryExtractor string

text \<open>An item of the Zotero library: its top-level entries and its \<^verbatim>\<open>data\<close> dictionary.\<close>

record zitem =
  item_top :: "string \<rightharpoonup> pyval"
  item_data :: "string \<rightharpoonup> pyval"

definition dict_get :: "(string \<rightharpoonup> pyval) \<Rightarrow> string \<Rightarrow> pyval" where
  "dict_get d k = (case d k of None \<Rightarrow> PNone | Some v \<Rightarrow> v)"

text \<open>A \<^verbatim>\<open>TransformerExtractor\<close> applies its transformers in turn and stops at \<open>None\<close>.\<close>

fun apply_transformers :: "transformer list \<Rightarrow> pyval \<Rightarrow> pyerr + pyval" where
  "apply_transformers [] v = Inr v"
| "apply_transformers (t # ts) v =
     (if v = PNone then Inr PNone else bind (t v) (apply_transformers ts))"

fun do_extract :: "(extractor \<Rightarrow> zitem \<Rightarrow> pyerr + pyval) \<Rightarrow> extractor \<Rightarrow> zitem \<Rightarrow> pyerr + pyval" where
  "do_extract other (ItemExtractor k fmt) item = Inr (dict_get (item_top item) k)"
| "do_extract other (ItemDataExtractor k) item = Inr (dict_get (item_data item) k)"
| "do_extract other (TransformerExtractor e ts) item =
     bind (do_extract other e item) (apply_transformers ts)"
| "do_extract other e item = other e item"

datatype field_type = STORED | BOOLEAN bool | NoFieldType | LibraryFieldType string

datatype codec = JSONFieldCodec | LibraryCodec string

record fieldspec =
  key :: string
  field_type :: field_type
  extractor :: extractor
  codec :: "codec option"

datatype facetspec =
    CollectionFacetSpec string string string int string
  | LibraryFacetSpec string

fun facet_key :: "facetspec \<Rightarrow> string" where
  "facet_key (CollectionFacetSpec k fk t w ck) = k"
| "facet_key (LibraryFacetSpec k) = k"


datatype renderer = TemplateRenderer string "(string \<times> string) list"

type_synonym hit = "string \<rightharpoonup> pyval"

record badgespec =
  badge_key :: string
  badge_field :: fieldspec
  activator :: "fieldspec \<Rightarrow> hit \<Rightarrow> bool"
  renderer :: renderer
  badge_weight :: int

text \<open>\<^verbatim>\<open>BadgeSpec.is_active\<close> hands the badge's field and the item to the activator.\<close>

definition is_active :: "badgespec \<Rightarrow> hit \<Rightarrow> bool" where
  "is_active b item = activator b (badge_field b) item"

record sortspec =
  sort_key :: string
  label :: string
  sort_weight :: int
  sort_fields :: "fieldspec list"
  reverse :: "bool list option"

record lib =
  default_fields :: "fieldspec list"
  default_facets :: "facetspec list"
  default_sorts :: "sortspec list"
  default_badges :: "badgespec list"
  gettext :: "string \<Rightarrow> string"
  parse_bool :: "string \<Rightarrow> bool option"
  parse_int :: "string \<Rightarrow> int option"
  extra_field_cleaner :: transformer

text \<open>
  The composer keeps dictionaries in insertion order (\<open>cfields\<close> is its
  \<^verbatim>\<open>fields\<close>): storing under a key that is
  present replaces the entry where it is, storing under a new key appends.
\<close>

record composer =
  whoosh_language :: string
  default_child_include_re :: string
  default_child_exclude_re :: string
  cfields :: "(string \<times> fieldspec) list"
  facets :: "(string \<times> facetspec) list"
  sorts :: "(string \<times> sortspec) list"
  badges :: "(string \<times> badgespec) list"

definition store_all :: "('a \<Rightarrow> string) \<Rightarrow> 'a list \<Rightarrow> (string \<times> 'a) list" where
  "store_all k xs = foldl (\<lambda>al x. AList.update (k x) x al) [] xs"

definition Composer :: "lib \<Rightarrow> string \<Rightarrow> string list \<Rightarrow> string list \<Rightarrow> string \<Rightarrow> string \<Rightarrow> composer" where
  "Composer l lang exclude_default_facets exclude_default_fields include_re exclude_re =
     \<lparr>whoosh_language = lang,
      default_child_include_re = include_re,
      default_child_exclude_re = exclude_re,
      cfields = store_all key
        (filter (\<lambda>f. key f \<notin> set exclude_default_fields) (default_fields l)),
      facets = store_all facet_key
        (filter (\<lambda>f. facet_key f \<notin> set exclude_default_facets) (default_facets l)),
      sorts = store_all sort_key (default_sorts l),
      badges = store_all badge_key (default_badges l)\<rparr>"

definition add_field :: "fieldspec \<Rightarrow> composer \<Rightarrow> composer" where
  "add_field f c = c\<lparr>cfields := AList.update (key f) f (cfields c)\<rparr>"

definition add_facet :: "facetspec \<Rightarrow> composer \<Rightarrow> composer" where
  "add_facet f c = c\<lparr>facets := AList.update (facet_key f) f (facets c)\<rparr>"

definition add_badge :: "badgespec \<Rightarrow> composer \<Rightarrow> composer" where
  "add_badge b c = c\<lparr>badges := AList.update (badge_key b) b (badges c)\<rparr>"

definition add_sort :: "sortspec \<Rightarrow> composer \<Rightarrow> composer" where
  "add_sort s c = c\<lparr>sorts := AList.update (sort_key s) s (sorts c)\<rparr>"

text \<open>\<^verbatim>\<open>composer.fields[k]\<close> raises when the key is absent.\<close>

definition get_field :: "composer \<Rightarrow> string \<Rightarrow> pyerr + fieldspec" where
  "get_field c k = (case map_of (cfields c) k of None \<Rightarrow> Inl (KeyError k) | Some f \<Rightarrow> Inr f)"

text \<open>
  \<^verbatim>\<open>composer.fields[k].extractor.extractors.append(e)\<close>: the field's extractor must
  be one that holds a list of extractors.
\<close>

definition append_extractor :: "string \<Rightarrow> extractor \<Rightarrow> composer \<Rightarrow> pyerr + composer" where
  "append_extractor k e c =
     bind (get_field c k) (\<lambda>f.
       case extractor f of
         MultiExtractor es \<Rightarrow>
           Inr (c\<lparr>cfields := AList.update k (f\<lparr>extractor := MultiExtractor (es @ [e])\<rparr>) (cfields c)\<rparr>)
       | _ \<Rightarrow> Inl AttributeError)"

section \<open>The module \<^verbatim>\<open>app/config.py\<close>\<close>

text \<open>
  A class is the list of its attributes in the order of the class body. The one
  character of the module outside ASCII, the dash of \<^verbatim>\<open>KERKO_TITLE\<close>, is written as
  its three UTF-8 bytes.
\<close>

datatype setting =
    SStr string
  | SBool bool
  | SInt int
  | SList "string list"
  | SPath path
  | SComposer composer

type_synonym pyclass = "(string \<times> setting) list"

text \<open>The field \<^verbatim>\<open>data\<close>, with the cleaner of the Extra field.\<close>

definition data_field :: "lib \<Rightarrow> fieldspec" where
  "data_field l =
     \<lparr>key = ''data'', field_type = STORED,
      extractor = TransformerExtractor RawDataExtractor [extra_field_cleaner l],
      codec = Some JSONFieldCodec\<rparr>"

text \<open>
  The field \<^verbatim>\<open>preview\<close>: the two transformers are the lambdas
  \<^verbatim>\<open>re.sub(r'^<span>', '<div class="csl-entry">', value, count=1)\<close> and
  \<^verbatim>\<open>re.sub(r'</span>$', '</div>', value, count=1)\<close>.
\<close>

definition preview_open :: transformer where
  \<open>preview_open =
     on_str (\<lambda>value. bind (re_sub ''^<span>'' ''<div class="csl-entry">'' value 1) (\<lambda>r. Inr (PStr r)))\<close>

definition preview_close :: transformer where
  "preview_close =
     on_str (\<lambda>value. bind (re_sub ''</span>$'' ''</div>'' value 1) (\<lambda>r. Inr (PStr r)))"

definition preview_field :: fieldspec where
  "preview_field =
     \<lparr>key = ''preview'', field_type = STORED,
      extractor = TransformerExtractor (ItemExtractor ''citation'' ''citation'')
        [preview_open, preview_close],
      codec = None\<rparr>"

text \<open>
  The three extractors appended to the field \<^verbatim>\<open>alternateId\<close>. Their patterns are
  \<^verbatim>\<open>^\s*EdTechHub.ItemAlsoKnownAs\s*:\s*(.*)$\<close>,
  \<^verbatim>\<open>^\s*KerkoCite.ItemAlsoKnownAs\s*:\s*(.*)$\<close> and
  \<^verbatim>\<open>^\s*shortDOI\s*:\s*(\S+)\s*$\<close>.
\<close>

definition edtechhub_regex :: string where
  "edtechhub_regex =
     ''^'' @ backslash # ''s*EdTechHub.ItemAlsoKnownAs'' @ backslash # ''s*:'' @ backslash # ''s*(.*)$''"

definition kerkocite_regex :: string where
  "kerkocite_regex =
     ''^'' @ backslash # ''s*KerkoCite.ItemAlsoKnownAs'' @ backslash # ''s*:'' @ backslash # ''s*(.*)$''"

definition shortdoi_regex :: string where
  "shortdoi_regex =
     ''^'' @ backslash # ''s*shortDOI'' @ backslash # ''s*:'' @ backslash # ''s*('' @
     backslash # ''S+)'' @ backslash # ''s*$''"

definition alternate_id_edtechhub :: extractor where
  "alternate_id_edtechhub =
     TransformerExtractor (ItemDataExtractor ''extra'')
       [find edtechhub_regex (IGNORECASE OR MULTILINE) 1, split '';'']"

definition alternate_id_kerkocite :: extractor where
  "alternate_id_kerkocite =
     TransformerExtractor (ItemDataExtractor ''extra'')
       [find kerkocite_regex (IGNORECASE OR MULTILINE) 1, split '' '']"

definition alternate_id_shortdoi :: extractor where
  "alternate_id_shortdoi =
     TransformerExtractor (ItemDataExtractor ''extra'')
       [find shortdoi_regex (IGNORECASE OR MULTILINE) 0]"

text \<open>The twelve facets, in the order of their registration.\<close>

definition config_facets :: "lib \<Rightarrow> facetspec list" where
  "config_facets l =
     [CollectionFacetSpec ''facet_learners'' ''learners'' (gettext l ''Learners'') 10 ''WZXRTV9N'',
      CollectionFacetSpec ''facet_educators'' ''educators'' (gettext l ''Educators'') 20 ''MS38G6YW'',
      CollectionFacetSpec ''facet_education_systems'' ''education_systems''
        (gettext l ''Education systems'') 30 ''ZN4PI2Z6'',
      CollectionFacetSpec ''facet_cost_effectiveness'' ''cost_effectiveness''
        (gettext l ''Cost effectiveness'') 40 ''SCMAR3ZW'',
      CollectionFacetSpec ''facet_hardware_and_modality'' ''hardware_and_modality''
        (gettext l ''Hardware and modality'') 50 ''CE7P7GJX'',
      CollectionFacetSpec ''facet_educational_level'' ''educational_level''
        (gettext l ''Educational level'') 60 ''B2CQYHX8'',
      CollectionFacetSpec ''facet_within_country_contexts'' ''within_country_contexts''
        (gettext l ''Within-country contexts'') 70 ''KY3HHD5I'',
      CollectionFacetSpec ''facet_language_of_publication'' ''language_of_publication''
        (gettext l ''Language of publication'') 80 ''5WYC9ALL'',
      CollectionFacetSpec ''facet_country'' ''country'' (gettext l ''Geography'') 90 ''4UP8CZQE'',
      CollectionFacetSpec ''facet_research_method'' ''research_method''
        (gettext l ''Research method'') 110 ''P4WEVZLQ'',
      CollectionFacetSpec ''facet_covid_and_reopening_of_schools'' ''covid_and_reopening_of_schools''
        (gettext l ''COVID and reopening of schools'') 120 ''TIYLRP8N'',
      CollectionFacetSpec ''facet_featured'' ''featured''
        (gettext l ''Featured publisher'') 100 ''SGAGGGLK'']"

definition edtechhub_field :: fieldspec where
  "edtechhub_field =
     \<lparr>key = ''edtechhub'', field_type = BOOLEAN True,
      extractor = InCollectionExtractor ''BFS3UXT4'', codec = None\<rparr>"

text \<open>The activator is \<^verbatim>\<open>lambda field, item: bool(item.get(field.key))\<close>.\<close>

definition edtechhub_badge :: "lib \<Rightarrow> fieldspec \<Rightarrow> badgespec" where
  "edtechhub_badge l f =
     \<lparr>badge_key = ''edtechhub'',
      badge_field = f,
      activator = (\<lambda>field item. truthy (dict_get item (key field))),
      renderer = TemplateRenderer ''app/_hub-badge.html.jinja2''
        [(''badge_title'', gettext l ''Published by The EdTech Hub'')],
      badge_weight = 100\<rparr>"

definition boost_field :: fieldspec where
  "boost_field =
     \<lparr>key = ''_boost'', field_type = NoFieldType,
      extractor = InCollectionBoostExtractor ''BFS3UXT4'' 5, codec = None\<rparr>"

definition hub_desc_sort :: "lib \<Rightarrow> fieldspec list \<Rightarrow> sortspec" where
  "hub_desc_sort l fs =
     \<lparr>sort_key = ''hub_desc'',
      label = gettext l ''EdTech Hub first'',
      sort_weight = 5,
      sort_fields = fs,
      reverse = Some [False, True, False, False]\<rparr>"

text \<open>
  The composer is created with three default facets and the default field
  \<^verbatim>\<open>data\<close> excluded; then fields, extractors, facets, the badge and the sort option
  are registered in the order of the class body.
\<close>

definition KERKO_COMPOSER :: "lib \<Rightarrow> string \<Rightarrow> pyerr + composer" where
  "KERKO_COMPOSER l lang =
     (let c = Composer l lang [''facet_tag'', ''facet_link'', ''facet_item_type''] [''data'']
                ''^(_publish|publishPDF)$'' [];
          c = add_field (data_field l) c;
          c = add_field preview_field c
      in bind (append_extractor ''alternateId'' alternate_id_edtechhub c) (\<lambda>c.
         bind (append_extractor ''alternateId'' alternate_id_kerkocite c) (\<lambda>c.
         bind (append_extractor ''alternateId'' alternate_id_shortdoi c) (\<lambda>c.
         let c = foldl (\<lambda>c f. add_facet f c) c (config_facets l);
             c = add_field edtechhub_field c
         in bind (get_field c ''edtechhub'') (\<lambda>f.
            let c = add_badge (edtechhub_badge l f) c;
                c = add_field boost_field c
            in bind (get_field c ''edtechhub'') (\<lambda>f1.
               bind (get_field c ''sort_date'') (\<lambda>f2.
               bind (get_field c ''sort_creator'') (\<lambda>f3.
               bind (get_field c ''sort_title'') (\<lambda>f4.
               Inr (add_sort (hub_desc_sort l [f1, f2, f3, f4]) c))))))))))"

text \<open>
  The class \<^verbatim>\<open>Config\<close>. Its inputs are the library, the working directory, the
  module's \<^verbatim>\<open>__file__\<close> and the environment after \<^verbatim>\<open>env.read_env()\<close>.
\<close>

definition static_dir :: "string \<Rightarrow> string list \<Rightarrow> string" where
  "static_dir file names =
     path_str (foldl joinpath (parent (parent (Path file))) (''static'' # ''src'' # ''vendor'' # names))"

definition config_attrs ::
  "lib \<Rightarrow> string \<Rightarrow> path \<Rightarrow> string \<Rightarrow> string \<Rightarrow> string \<Rightarrow> string \<Rightarrow> string \<Rightarrow> composer \<Rightarrow> pyclass" where
  "config_attrs l file app_dir secret_key api_key library_id library_type data_dir kerko_composer =
      [(''app_dir'', SPath app_dir),
       (''SECRET_KEY'', SStr secret_key),
       (''KERKO_ZOTERO_API_KEY'', SStr api_key),
       (''KERKO_ZOTERO_LIBRARY_ID'', SStr library_id),
       (''KERKO_ZOTERO_LIBRARY_TYPE'', SStr library_type),
       (''KERKO_DATA_DIR'', SStr data_dir),
       (''LOGGING_HANDLER'', SStr ''default''),
       (''EXPLAIN_TEMPLATE_LOADING'', SBool False),
       (''LIBSASS_INCLUDES'', SList
          [static_dir file [''bootstrap'', ''scss''],
           static_dir file [''@fortawesome'', ''fontawesome-free'', ''scss'']]),
       (''BABEL_DEFAULT_LOCALE'', SStr ''en_GB''),
       (''KERKO_WHOOSH_LANGUAGE'', SStr ''en''),
       (''KERKO_ZOTERO_LOCALE'', SStr ''en-GB''),
       (''HOME_URL'', SStr ''https://edtechhub.org/''),
       (''HOME_TITLE'', SStr (gettext l ''The EdTech Hub'')),
       (''HOME_SUBTITLE'', SStr
          (gettext l ''Research and Innovation to fulfil the potential of EdTech'')),
       (''ABOUT_URL'', SStr ''https://edtechhub.org/about-edtech-hub/''),
       (''ABOUT_TEAM_URL'', SStr ''https://edtechhub.org/about-edtech-hub/directors-team/''),
       (''ABOUT_ADVISORS_URL'', SStr ''https://edtechhub.org/about-edtech-hub/advisors/''),
       (''TOOLS_DATABASE_URL'', SStr ''https://database.edtechhub.org/''),
       (''BLOG_URL'', SStr ''https://edtechhub.org/blog/''),
       (''CONTACT_URL'', SStr ''https://edtechhub.org/contact-us/''),
       (''NAV_TITLE'', SStr (gettext l ''Evidence Library'')),
       (''KERKO_TITLE'', SStr
          (gettext l (''Evidence Library '' @ [CHR 0xE2, CHR 0x80, CHR 0x93] @ '' The EdTech Hub''))),
       (''KERKO_PRINT_ITEM_LINK'', SBool True),
       (''KERKO_PRINT_CITATIONS_LINK'', SBool True),
       (''KERKO_RESULTS_FIELDS'', SList
          [''id'', ''attachments'', ''bib'', ''coins'', ''data'', ''preview'', ''url'']),
       (''KERKO_RESULTS_ABSTRACTS'', SBool True),
       (''KERKO_TEMPLATE_BASE'', SStr ''app/base.html.jinja2''),
       (''KERKO_TEMPLATE_LAYOUT'', SStr ''app/layout.html.jinja2''),
       (''KERKO_TEMPLATE_SEARCH'', SStr ''app/search.html.jinja2''),
       (''KERKO_TEMPLATE_SEARCH_ITEM'', SStr ''app/search-item.html.jinja2''),
       (''KERKO_TEMPLATE_ITEM'', SStr ''app/item.html.jinja2''),
       (''KERKO_DOWNLOAD_ATTACHMENT_NEW_WINDOW'', SBool True),
       (''KERKO_RELATIONS_INITIAL_LIMIT'', SInt 50),
       (''KERKO_CSL_STYLE'', SStr
          ''https://docs.edtechhub.org/static/dist/csl/eth_apa.xml?202012301815''),
       (''KERKO_COMPOSER'', SComposer kerko_composer)]"

definition Config :: "lib \<Rightarrow> string \<Rightarrow> string \<Rightarrow> environ \<Rightarrow> pyerr + pyclass" where
  "Config l cwd file env =
     bind (env_str env ''FLASK_APP'' None) (\<lambda>flask_app.
     let app_dir = absolute cwd (parent (Path flask_app)) in
     bind (env_str env ''SECRET_KEY'' None) (\<lambda>secret_key.
     bind (env_str env ''KERKO_ZOTERO_API_KEY'' None) (\<lambda>api_key.
     bind (env_str env ''KERKO_ZOTERO_LIBRARY_ID'' None) (\<lambda>library_id.
     bind (env_str env ''KERKO_ZOTERO_LIBRARY_TYPE'' None) (\<lambda>library_type.
     bind (env_str env ''KERKO_DATA_DIR''
            (Some (path_str (joinpath (joinpath app_dir ''data'') ''kerko'')))) (\<lambda>data_dir.
     bind (KERKO_COMPOSER l ''en'') (\<lambda>kerko_composer.
     Inr (config_attrs l file app_dir secret_key api_key library_id library_type data_dir
            kerko_composer))))))))"

text \<open>The two subclasses hold their own attributes; the others come from \<^verbatim>\<open>Config\<close>.\<close>

definition DevelopmentConfig :: "lib \<Rightarrow> environ \<Rightarrow> pyerr + pyclass" where
  "DevelopmentConfig l env =
     bind (env_parsed (parse_bool l) env ''ASSETS_DEBUG'' True) (\<lambda>assets_debug.
     bind (env_parsed (parse_int l) env ''KERKO_ZOTERO_START'' 0) (\<lambda>zotero_start.
     bind (env_parsed (parse_int l) env ''KERKO_ZOTERO_END'' 0) (\<lambda>zotero_end.
     bind (env_str env ''LOGGING_LEVEL'' (Some ''DEBUG'')) (\<lambda>logging_level.
     Inr
      [(''CONFIG'', SStr ''development''),
       (''DEBUG'', SBool True),
       (''ASSETS_DEBUG'', SBool assets_debug),
       (''KERKO_ZOTERO_START'', SInt zotero_start),
       (''KERKO_ZOTERO_END'', SInt zotero_end),
       (''LIBSASS_STYLE'', SStr ''expanded''),
       (''LOGGING_LEVEL'', SStr logging_level)]))))"

definition ProductionConfig :: "lib \<Rightarrow> environ \<Rightarrow> pyerr + pyclass" where
  "ProductionConfig l env =
     bind (env_parsed (parse_bool l) env ''ASSETS_DEBUG'' False) (\<lambda>assets_debug.
     bind (env_str env ''LOGGING_LEVEL'' (Some ''WARNING'')) (\<lambda>logging_level.
     Inr
      [(''CONFIG'', SStr ''production''),
       (''DEBUG'', SBool False),
       (''ASSETS_DEBUG'', SBool assets_debug),
       (''ASSETS_AUTO_BUILD'', SBool False),
       (''LOGGING_LEVEL'', SStr logging_level),
       (''GOOGLE_ANALYTICS_ID'', SStr ''UA-149862882-2''),
       (''LIBSASS_STYLE'', SStr ''compressed'')]))"

text \<open>
  Loading the module: \<^verbatim>\<open>env.read_env()\<close>, then the three class bodies, then the
  dictionary \<^verbatim>\<open>CONFIGS\<close>. A subclass is its own attributes followed by its base.
\<close>

record module =
  config :: pyclass
  development :: pyclass
  production :: pyclass

definition load_module ::
  "lib \<Rightarrow> string \<Rightarrow> string \<Rightarrow> environ option \<Rightarrow> environ \<Rightarrow> pyerr + module" where
  "load_module l cwd file dotenv environ =
     (let env = read_env dotenv environ in
      bind (Config l cwd file env) (\<lambda>c.
      bind (DevelopmentConfig l env) (\<lambda>d.
      bind (ProductionConfig l env) (\<lambda>p.
      Inr \<lparr>config = c, development = d, production = p\<rparr>))))"

definition CONFIGS :: "module \<Rightarrow> (string \<times> pyclass) list" where
  "CONFIGS m = [(''development'', development m), (''production'', production m)]"

text \<open>Attribute lookup on a subclass: its own attributes first, then the base class.\<close>

definition class_attr :: "pyclass \<Rightarrow> pyclass \<Rightarrow> string \<Rightarrow> setting option" where
  "class_attr sub base name =
     (case map_of sub name of Some v \<Rightarrow> Some v | None \<Rightarrow> map_of base name)"

definition composer_of :: "pyclass \<Rightarrow> composer option" where
  "composer_of c =
     (case map_of c ''KERKO_COMPOSER'' of Some (SComposer k) \<Rightarrow> Some k | _ \<Rightarrow> None)"

section \<open>Notions for the statements\<close>

text \<open>The composer as its constructor returns it, before anything is registered.\<close>

definition composer0 :: "lib \<Rightarrow> string \<Rightarrow> composer" where
  "composer0 l lang =
     Composer l lang [''facet_tag'', ''facet_link'', ''facet_item_type''] [''data'']
       ''^(_publish|publishPDF)$'' []"

definition succeeds :: "pyerr + 'a \<Rightarrow> bool" where
  "succeeds r = (case r of Inl e \<Rightarrow> False | Inr x \<Rightarrow> True)"

text \<open>The environment variables that the class \<^verbatim>\<open>Config\<close> reads, in order.\<close>

definition required_vars :: "string list" where
  "required_vars =
     [''FLASK_APP'', ''SECRET_KEY'', ''KERKO_ZOTERO_API_KEY'', ''KERKO_ZOTERO_LIBRARY_ID'',
      ''KERKO_ZOTERO_LIBRARY_TYPE'']"

definition config_vars :: "string list" where
  "config_vars = required_vars @ [''KERKO_DATA_DIR'']"

text \<open>The environment variables that the whole module reads.\<close>

definition module_vars :: "string list" where
  "module_vars =
     config_vars @ [''ASSETS_DEBUG'', ''KERKO_ZOTERO_START'', ''KERKO_ZOTERO_END'', ''LOGGING_LEVEL'']"

text \<open>
  A variable that \<^verbatim>\<open>env.bool\<close> or \<^verbatim>\<open>env.int\<close> reads is accepted when it is unset or
  when the parser takes its value.
\<close>

definition accepted :: "(string \<Rightarrow> 'a option) \<Rightarrow> environ \<Rightarrow> string \<Rightarrow> bool" where
  "accepted parse env name = (case env name of None \<Rightarrow> True | Some v \<Rightarrow> parse v \<noteq> None)"

subsection \<open>Prefixes and suffixes\<close>

text \<open>
  The replacement of a leading text and of a trailing text by another, in the words
  of the specification: the text is replaced if present, and the string is returned
  unchanged otherwise.
\<close>

definition starts_with :: "string \<Rightarrow> string \<Rightarrow> bool" where
  "starts_with pre s = (take (length pre) s = pre)"

definition ends_with :: "string \<Rightarrow> string \<Rightarrow> bool" where
  "ends_with suf s = (length suf \<le> length s \<and> drop (length s - length suf) s = suf)"

definition replace_leading :: "string \<Rightarrow> string \<Rightarrow> string \<Rightarrow> string" where
  "replace_leading pre new s = (if starts_with pre s then new @ drop (length pre) s else s)"

definition replace_trailing :: "string \<Rightarrow> string \<Rightarrow> string \<Rightarrow> string" where
  "replace_trailing suf new s =
     (if ends_with suf s then take (length s - length suf) s @ new else s)"

subsection \<open>An instance for evaluation\<close>

text \<open>
  A small library instance and an environment, on which the configuration can be
  evaluated: the composer starts with six fields and four facets, translation is
  the identity.
\<close>

definition library_field :: "string \<Rightarrow> fieldspec" where
  "library_field k =
     \<lparr>key = k, field_type = LibraryFieldType k, extractor = LibraryExtractor k, codec = None\<rparr>"

definition sample_lib :: lib where
  "sample_lib =
     \<lparr>default_fields =
        [library_field ''id'',
         (library_field ''alternateId'')
           \<lparr>extractor := MultiExtractor [ItemDataExtractor ''DOI'', ItemDataExtractor ''ISBN'']\<rparr>,
         library_field ''data'',
         library_field ''sort_title'',
         library_field ''sort_creator'',
         library_field ''sort_date''],
      default_facets =
        [LibraryFacetSpec ''facet_item_type'', LibraryFacetSpec ''facet_year'',
         LibraryFacetSpec ''facet_tag'', LibraryFacetSpec ''facet_link''],
      default_sorts = [],
      default_badges = [],
      gettext = (\<lambda>s. s),
      parse_bool = (\<lambda>s. if s = ''1'' then Some True else if s = ''0'' then Some False else None),
      parse_int = (\<lambda>s. if s = ''0'' then Some 0 else None),
      extra_field_cleaner = Inr\<rparr>"

definition sample_vars :: "(string \<times> string) list" where
  "sample_vars =
     [(''FLASK_APP'', ''kerkoapp.py''),
      (''SECRET_KEY'', ''s3cret''),
      (''KERKO_ZOTERO_API_KEY'', ''k3y''),
      (''KERKO_ZOTERO_LIBRARY_ID'', ''2405685''),
      (''KERKO_ZOTERO_LIBRARY_TYPE'', ''group'')]"

definition sample_env :: environ where
  "sample_env = map_of sample_vars"

text \<open>Items of the library of which only one entry matters.\<close>

definition item_with_citation :: "string \<Rightarrow> zitem" where
  "item_with_citation v = \<lparr>item_top = [''citation'' \<mapsto> PStr v], item_data = Map.empty\<rparr>"

definition item_with_extra :: "string \<Rightarrow> zitem" where
  "item_with_extra text = \<lparr>item_top = Map.empty, item_data = [''extra'' \<mapsto> PStr text]\<rparr>"

text \<open>Extractors of the library that the module does not configure are not evaluated.\<close>

definition no_other :: "extractor \<Rightarrow> zitem \<Rightarrow> pyerr + pyval" where
  "no_other e item = Inl TypeError"

section \<open>Steps that may raise\<close>

lemma bind_Inr: "bind r f = Inr y \<longleftrightarrow> (\<exists>x. r = Inr x \<and> f x = Inr y)"
  by (cases r) (simp_all add: bind_def)

lemma get_field_Inr: "get_field c k = Inr f \<longleftrightarrow> map_of (cfields c) k = Some f"
  by (simp add: get_field_def split: option.splits)

lemma append_extractor_Inr:
  assumes "append_extractor k e c = Inr c'"
  obtains f es where "map_of (cfields c) k = Some f" and "extractor f = MultiExtractor es"
    and "c' = c\<lparr>cfields := AList.update k (f\<lparr>extractor := MultiExtractor (es @ [e])\<rparr>) (cfields c)\<rparr>"
proof -
  from assms obtain f where f: "map_of (cfields c) k = Some f"
    and r: "(case extractor f of
               MultiExtractor es \<Rightarrow>
                 Inr (c\<lparr>cfields := AList.update k (f\<lparr>extractor := MultiExtractor (es @ [e])\<rparr>) (cfields c)\<rparr>)
             | _ \<Rightarrow> Inl AttributeError) = Inr c'"
    by (auto simp: append_extractor_def bind_Inr get_field_Inr)
  from r show ?thesis
    by (cases "extractor f") (auto intro: that[OF f])
qed

lemma append_extractor_others:
  assumes "append_extractor k e c = Inr c'"
  shows "facets c' = facets c" and "sorts c' = sorts c" and "badges c' = badges c"
    and "k' \<noteq> k \<Longrightarrow> map_of (cfields c') k' = map_of (cfields c) k'"
  using assms by (auto elim!: append_extractor_Inr simp: update_conv')

lemma add_facets_fold:
  "cfields (foldl (\<lambda>c f. add_facet f c) c fs) = cfields c"
  "sorts (foldl (\<lambda>c f. add_facet f c) c fs) = sorts c"
  "badges (foldl (\<lambda>c f. add_facet f c) c fs) = badges c"
  "facets (foldl (\<lambda>c f. add_facet f c) c fs) =
     foldl (\<lambda>al f. AList.update (facet_key f) f al) (facets c) fs"
  by (induction fs arbitrary: c) (simp_all add: add_facet_def)

lemma bindE:
  assumes "bind r f = Inr y"
  obtains x where "r = Inr x" and "f x = Inr y"
  using assms by (auto simp: bind_Inr)

lemma steps:
  assumes "KERKO_COMPOSER l lang = Inr k"
  shows "\<exists>c3 c4 c5 f f1 f2 f3 f4.
    append_extractor ''alternateId'' alternate_id_edtechhub
      (add_field preview_field (add_field (data_field l) (composer0 l lang))) = Inr c3 \<and>
    append_extractor ''alternateId'' alternate_id_kerkocite c3 = Inr c4 \<and>
    append_extractor ''alternateId'' alternate_id_shortdoi c4 = Inr c5 \<and>
    get_field (add_field edtechhub_field (foldl (\<lambda>c f. add_facet f c) c5 (config_facets l))) ''edtechhub'' = Inr f \<and>
    get_field (add_field boost_field (add_badge (edtechhub_badge l f)
       (add_field edtechhub_field (foldl (\<lambda>c f. add_facet f c) c5 (config_facets l))))) ''edtechhub'' = Inr f1 \<and>
    get_field (add_field boost_field (add_badge (edtechhub_badge l f)
       (add_field edtechhub_field (foldl (\<lambda>c f. add_facet f c) c5 (config_facets l))))) ''sort_date'' = Inr f2 \<and>
    get_field (add_field boost_field (add_badge (edtechhub_badge l f)
       (add_field edtechhub_field (foldl (\<lambda>c f. add_facet f c) c5 (config_facets l))))) ''sort_creator'' = Inr f3 \<and>
    get_field (add_field boost_field (add_badge (edtechhub_badge l f)
       (add_field edtechhub_field (foldl (\<lambda>c f. add_facet f c) c5 (config_facets l))))) ''sort_title'' = Inr f4 \<and>
    k = add_sort (hub_desc_sort l [f1, f2, f3, f4]) (add_field boost_field (add_badge (edtechhub_badge l f)
       (add_field edtechhub_field (foldl (\<lambda>c f. add_facet f c) c5 (config_facets l)))))"
  using assms unfolding KERKO_COMPOSER_def Let_def composer0_def
  apply (elim bindE)
  apply (simp only: sum.inject)
  apply blast
  done

lemma KERKO_COMPOSER_Inr:
  assumes "KERKO_COMPOSER l lang = Inr k"
  shows "facets k = foldl (\<lambda>al f. AList.update (facet_key f) f al) (facets (composer0 l lang)) (config_facets l)"
    and "badges k = AList.update ''edtechhub'' (edtechhub_badge l edtechhub_field) (badges (composer0 l lang))"
    and "\<exists>f2 f3 f4. map_of (cfields (composer0 l lang)) ''sort_date'' = Some f2 \<and>
           map_of (cfields (composer0 l lang)) ''sort_creator'' = Some f3 \<and>
           map_of (cfields (composer0 l lang)) ''sort_title'' = Some f4 \<and>
           sorts k = AList.update ''hub_desc'' (hub_desc_sort l [edtechhub_field, f2, f3, f4])
             (sorts (composer0 l lang))"
proof -
  define c0 where "c0 = composer0 l lang"
  define c2 where "c2 = add_field preview_field (add_field (data_field l) c0)"
  from steps[OF assms] obtain c3 c4 c5 f f1 f2 f3 f4 where
    a3: "append_extractor ''alternateId'' alternate_id_edtechhub c2 = Inr c3" and
    a4: "append_extractor ''alternateId'' alternate_id_kerkocite c3 = Inr c4" and
    a5: "append_extractor ''alternateId'' alternate_id_shortdoi c4 = Inr c5" and
    g: "get_field (add_field edtechhub_field (foldl (\<lambda>c f. add_facet f c) c5 (config_facets l))) ''edtechhub'' = Inr f" and
    g1: "get_field (add_field boost_field (add_badge (edtechhub_badge l f)
       (add_field edtechhub_field (foldl (\<lambda>c f. add_facet f c) c5 (config_facets l))))) ''edtechhub'' = Inr f1" and
    g2: "get_field (add_field boost_field (add_badge (edtechhub_badge l f)
       (add_field edtechhub_field (foldl (\<lambda>c f. add_facet f c) c5 (config_facets l))))) ''sort_date'' = Inr f2" and
    g3: "get_field (add_field boost_field (add_badge (edtechhub_badge l f)
       (add_field edtechhub_field (foldl (\<lambda>c f. add_facet f c) c5 (config_facets l))))) ''sort_creator'' = Inr f3" and
    g4: "get_field (add_field boost_field (add_badge (edtechhub_badge l f)
       (add_field edtechhub_field (foldl (\<lambda>c f. add_facet f c) c5 (config_facets l))))) ''sort_title'' = Inr f4" and
    k: "k = add_sort (hub_desc_sort l [f1, f2, f3, f4]) (add_field boost_field (add_badge (edtechhub_badge l f)
       (add_field edtechhub_field (foldl (\<lambda>c f. add_facet f c) c5 (config_facets l)))))"
    unfolding c2_def c0_def by blast
  have keys: "key edtechhub_field = ''edtechhub''" "key boost_field = ''_boost''"
    "key preview_field = ''preview''" "key (data_field l) = ''data''"
    by (simp_all add: edtechhub_field_def boost_field_def preview_field_def data_field_def)
  have f: "f = edtechhub_field"
    using g by (simp add: get_field_Inr add_field_def update_conv' keys)
  have f1: "f1 = edtechhub_field"
    using g1 by (simp add: get_field_Inr add_field_def add_badge_def update_conv' keys)
  have c5: "facets c5 = facets c0" "sorts c5 = sorts c0" "badges c5 = badges c0"
    using append_extractor_others(1-3)[OF a3] append_extractor_others(1-3)[OF a4]
      append_extractor_others(1-3)[OF a5]
    by (simp_all add: c2_def add_field_def)
  have other: "map_of (cfields c5) n = map_of (cfields c0) n"
    if "n \<noteq> ''alternateId''" "n \<noteq> ''preview''" "n \<noteq> ''data''" for n
    using that append_extractor_others(4)[OF a3, of n] append_extractor_others(4)[OF a4, of n]
      append_extractor_others(4)[OF a5, of n]
    by (simp add: c2_def add_field_def update_conv' keys)
  have s2: "map_of (cfields c0) ''sort_date'' = Some f2"
    using g2 other[of "''sort_date''"]
    by (simp add: get_field_Inr add_field_def add_badge_def update_conv' keys add_facets_fold)
  have s3: "map_of (cfields c0) ''sort_creator'' = Some f3"
    using g3 other[of "''sort_creator''"]
    by (simp add: get_field_Inr add_field_def add_badge_def update_conv' keys add_facets_fold)
  have s4: "map_of (cfields c0) ''sort_title'' = Some f4"
    using g4 other[of "''sort_title''"]
    by (simp add: get_field_Inr add_field_def add_badge_def update_conv' keys add_facets_fold)
  show "facets k = foldl (\<lambda>al f. AList.update (facet_key f) f al) (facets (composer0 l lang)) (config_facets l)"
    by (simp add: k add_sort_def add_field_def add_badge_def add_facets_fold c5 c0_def)
  show "badges k = AList.update ''edtechhub'' (edtechhub_badge l edtechhub_field) (badges (composer0 l lang))"
    by (simp add: k f add_sort_def add_field_def add_badge_def add_facets_fold c5 c0_def
        edtechhub_badge_def)
  have "sorts k = AList.update ''hub_desc'' (hub_desc_sort l [edtechhub_field, f2, f3, f4])
             (sorts (composer0 l lang))"
    by (simp add: k f1 add_sort_def add_field_def add_badge_def add_facets_fold c5 c0_def
        hub_desc_sort_def)
  with s2 s3 s4 show "\<exists>f2 f3 f4. map_of (cfields (composer0 l lang)) ''sort_date'' = Some f2 \<and>
           map_of (cfields (composer0 l lang)) ''sort_creator'' = Some f3 \<and>
           map_of (cfields (composer0 l lang)) ''sort_title'' = Some f4 \<and>
           sorts k = AList.update ''hub_desc'' (hub_desc_sort l [edtechhub_field, f2, f3, f4])
             (sorts (composer0 l lang))"
    unfolding c0_def by blast
qed

section \<open>The class body\<close>

lemma env_str_required: "env_str env n None = Inr v \<longleftrightarrow> env n = Some v"
  by (simp add: env_str_def split: option.splits)

lemma env_str_default: "env_str env n (Some d) = Inr (case env n of None \<Rightarrow> d | Some v \<Rightarrow> v)"
  by (simp add: env_str_def split: option.splits)

lemma Config_Inr:
  assumes "Config l cwd file env = Inr c"
  obtains fa sk ak li lt k where
    "env ''FLASK_APP'' = Some fa" "env ''SECRET_KEY'' = Some sk"
    "env ''KERKO_ZOTERO_API_KEY'' = Some ak" "env ''KERKO_ZOTERO_LIBRARY_ID'' = Some li"
    "env ''KERKO_ZOTERO_LIBRARY_TYPE'' = Some lt" "KERKO_COMPOSER l ''en'' = Inr k"
    "c = config_attrs l file (absolute cwd (parent (Path fa))) sk ak li lt
           (case env ''KERKO_DATA_DIR'' of
              None \<Rightarrow> path_str (joinpath (joinpath (absolute cwd (parent (Path fa))) ''data'') ''kerko'')
            | Some v \<Rightarrow> v) k"
  using assms unfolding Config_def Let_def
  apply (elim bindE)
  apply (simp only: env_str_required env_str_default sum.inject)
  done

lemma Config_succeeds:
  assumes "env ''FLASK_APP'' = Some fa" "env ''SECRET_KEY'' = Some sk"
    "env ''KERKO_ZOTERO_API_KEY'' = Some ak" "env ''KERKO_ZOTERO_LIBRARY_ID'' = Some li"
    "env ''KERKO_ZOTERO_LIBRARY_TYPE'' = Some lt" "KERKO_COMPOSER l ''en'' = Inr k"
  shows "Config l cwd file env =
     Inr (config_attrs l file (absolute cwd (parent (Path fa))) sk ak li lt
           (case env ''KERKO_DATA_DIR'' of
              None \<Rightarrow> path_str (joinpath (joinpath (absolute cwd (parent (Path fa))) ''data'') ''kerko'')
            | Some v \<Rightarrow> v) k)"
  using assms by (simp add: Config_def Let_def bind_def env_str_def split: option.splits)

lemma Config_missing:
  assumes "n \<in> set required_vars" "env n = None"
  shows "\<exists>m \<in> set required_vars. env m = None \<and> Config l cwd file env = Inl (EnvError m)"
proof (cases "env ''FLASK_APP''")
  case None
  then show ?thesis by (simp add: Config_def bind_def env_str_def required_vars_def)
next
  case a: (Some fa)
  show ?thesis
  proof (cases "env ''SECRET_KEY''")
    case None
    with a show ?thesis by (simp add: Config_def bind_def env_str_def required_vars_def Let_def)
  next
    case b: (Some sk)
    show ?thesis
    proof (cases "env ''KERKO_ZOTERO_API_KEY''")
      case None
      with a b show ?thesis by (simp add: Config_def bind_def env_str_def required_vars_def Let_def)
    next
      case c: (Some ak)
      show ?thesis
      proof (cases "env ''KERKO_ZOTERO_LIBRARY_ID''")
        case None
        with a b c show ?thesis
          by (simp add: Config_def bind_def env_str_def required_vars_def Let_def)
      next
        case d: (Some li)
        show ?thesis
        proof (cases "env ''KERKO_ZOTERO_LIBRARY_TYPE''")
          case None
          with a b c d show ?thesis
            by (simp add: Config_def bind_def env_str_def required_vars_def Let_def)
        next
          case (Some lt)
          with a b c d assms show ?thesis by (auto simp: required_vars_def)
        qed
      qed
    qed
  qed
qed

lemma composer_of_attrs: "composer_of (config_attrs l file ad sk ak li lt dd k) = Some k"
  by (simp add: composer_of_def config_attrs_def)

lemma data_dir_attrs:
  "map_of (config_attrs l file ad sk ak li lt dd k) ''KERKO_DATA_DIR'' = Some (SStr dd)"
  by (simp add: config_attrs_def)

section \<open>Dictionaries in insertion order\<close>

lemma succeeds_Inr: "succeeds r \<longleftrightarrow> (\<exists>x. r = Inr x)"
  by (cases r) (simp_all add: succeeds_def)





lemma fold_update_keyed:
  "(\<And>a x. map_of al a = Some x \<Longrightarrow> kf x = a) \<Longrightarrow>
   map_of (foldl (\<lambda>al x. AList.update (kf x) x al) al xs) a = Some x \<Longrightarrow> kf x = a"
proof (induction xs arbitrary: al)
  case Nil
  then show ?case by simp
next
  case (Cons y ys)
  show ?case
  proof (rule Cons.IH[of "AList.update (kf y) y al"])
    show "kf x = a" if "map_of (AList.update (kf y) y al) a = Some x" for a x
      using that Cons.prems(1)[of a x] by (auto simp: update_conv' split: if_splits)
    show "map_of (foldl (\<lambda>al x. AList.update (kf x) x al) (AList.update (kf y) y al) ys) a = Some x"
      using Cons.prems(2) by simp
  qed
qed

lemma composer0_keyed: "map_of (cfields (composer0 l lang)) a = Some f \<Longrightarrow> key f = a"
  unfolding composer0_def Composer_def store_all_def
  by (rule fold_update_keyed[where al="[]" and kf=key]) (simp_all)


lemma append_extractor_ok:
  assumes "map_of (cfields c) k = Some f" and "extractor f = MultiExtractor es"
  shows "append_extractor k e c =
    Inr (c\<lparr>cfields := AList.update k (f\<lparr>extractor := MultiExtractor (es @ [e])\<rparr>) (cfields c)\<rparr>)"
  using assms by (simp add: append_extractor_def get_field_def bind_def)

lemma field_keys:
  "key edtechhub_field = ''edtechhub''" "key boost_field = ''_boost''"
  "key preview_field = ''preview''" "key (data_field l) = ''data''"
  by (simp_all add: edtechhub_field_def boost_field_def preview_field_def data_field_def)

lemma KERKO_COMPOSER_succeeds:
  assumes al: "map_of (cfields (composer0 l lang)) ''alternateId'' = Some f"
    and mu: "extractor f = MultiExtractor es"
    and sd: "map_of (cfields (composer0 l lang)) ''sort_date'' = Some f2"
    and sc: "map_of (cfields (composer0 l lang)) ''sort_creator'' = Some f3"
    and st: "map_of (cfields (composer0 l lang)) ''sort_title'' = Some f4"
  shows "succeeds (KERKO_COMPOSER l lang)"
proof -
  define c2 where "c2 = add_field preview_field (add_field (data_field l) (composer0 l lang))"
  define g3 where "g3 = f\<lparr>extractor := MultiExtractor (es @ [alternate_id_edtechhub])\<rparr>"
  define c3 where "c3 = c2\<lparr>cfields := AList.update ''alternateId'' g3 (cfields c2)\<rparr>"
  define g4 where "g4 = g3\<lparr>extractor := MultiExtractor ((es @ [alternate_id_edtechhub]) @ [alternate_id_kerkocite])\<rparr>"
  define c4 where "c4 = c3\<lparr>cfields := AList.update ''alternateId'' g4 (cfields c3)\<rparr>"
  define g5 where "g5 = g4\<lparr>extractor := MultiExtractor (((es @ [alternate_id_edtechhub]) @ [alternate_id_kerkocite]) @ [alternate_id_shortdoi])\<rparr>"
  define c5 where "c5 = c4\<lparr>cfields := AList.update ''alternateId'' g5 (cfields c4)\<rparr>"
  have m2: "map_of (cfields c2) ''alternateId'' = Some f"
    using al by (simp add: c2_def add_field_def update_conv' field_keys)
  have a3: "append_extractor ''alternateId'' alternate_id_edtechhub c2 = Inr c3"
    unfolding c3_def g3_def by (rule append_extractor_ok[OF m2 mu])
  have a4: "append_extractor ''alternateId'' alternate_id_kerkocite c3 = Inr c4"
    unfolding c4_def g4_def
    by (rule append_extractor_ok) (simp_all add: c3_def g3_def update_conv')
  have a5: "append_extractor ''alternateId'' alternate_id_shortdoi c4 = Inr c5"
    unfolding c5_def g5_def
    by (rule append_extractor_ok) (simp_all add: c4_def g4_def update_conv')
  have m5: "map_of (cfields c5) n = map_of (cfields (composer0 l lang)) n"
    if "n \<noteq> ''alternateId''" "n \<noteq> ''preview''" "n \<noteq> ''data''" for n
    using that by (simp add: c5_def c4_def c3_def c2_def add_field_def update_conv' field_keys)
  have "KERKO_COMPOSER l lang =
    bind (append_extractor ''alternateId'' alternate_id_edtechhub c2) (\<lambda>c.
         bind (append_extractor ''alternateId'' alternate_id_kerkocite c) (\<lambda>c.
         bind (append_extractor ''alternateId'' alternate_id_shortdoi c) (\<lambda>c.
         let c = foldl (\<lambda>c f. add_facet f c) c (config_facets l);
             c = add_field edtechhub_field c
         in bind (get_field c ''edtechhub'') (\<lambda>f.
            let c = add_badge (edtechhub_badge l f) c;
                c = add_field boost_field c
            in bind (get_field c ''edtechhub'') (\<lambda>f1.
               bind (get_field c ''sort_date'') (\<lambda>f2.
               bind (get_field c ''sort_creator'') (\<lambda>f3.
               bind (get_field c ''sort_title'') (\<lambda>f4.
               Inr (add_sort (hub_desc_sort l [f1, f2, f3, f4]) c)))))))))"
    unfolding KERKO_COMPOSER_def c2_def composer0_def Let_def ..
  also have "\<dots> = (let c = foldl (\<lambda>c f. add_facet f c) c5 (config_facets l);
             c = add_field edtechhub_field c
         in bind (get_field c ''edtechhub'') (\<lambda>f.
            let c = add_badge (edtechhub_badge l f) c;
                c = add_field boost_field c
            in bind (get_field c ''edtechhub'') (\<lambda>f1.
               bind (get_field c ''sort_date'') (\<lambda>f2.
               bind (get_field c ''sort_creator'') (\<lambda>f3.
               bind (get_field c ''sort_title'') (\<lambda>f4.
               Inr (add_sort (hub_desc_sort l [f1, f2, f3, f4]) c)))))))"
    by (simp only: a3 a4 a5 bind_def sum.case)
  finally show ?thesis
    by (simp add: Let_def get_field_def add_field_def add_badge_def update_conv' field_keys
        add_facets_fold m5 sd sc st bind_def succeeds_def)
qed

lemma sample_fields:
  "map_of (cfields (composer0 sample_lib ''en'')) ''alternateId'' =
     Some ((library_field ''alternateId'')
           \<lparr>extractor := MultiExtractor [ItemDataExtractor ''DOI'', ItemDataExtractor ''ISBN'']\<rparr>)"
  "map_of (cfields (composer0 sample_lib ''en'')) ''sort_date'' = Some (library_field ''sort_date'')"
  "map_of (cfields (composer0 sample_lib ''en'')) ''sort_creator'' = Some (library_field ''sort_creator'')"
  "map_of (cfields (composer0 sample_lib ''en'')) ''sort_title'' = Some (library_field ''sort_title'')"
  by (simp_all add: composer0_def Composer_def store_all_def sample_lib_def library_field_def)

lemma sample_composer: "succeeds (KERKO_COMPOSER sample_lib ''en'')"
  by (rule KERKO_COMPOSER_succeeds[OF sample_fields(1) _ sample_fields(2-4)]) simp



lemma sample_config:
  obtains k where "KERKO_COMPOSER sample_lib ''en'' = Inr k"
    and "Config sample_lib cwd file sample_env =
      Inr (config_attrs sample_lib file (absolute cwd (parent (Path ''kerkoapp.py'')))
             ''s3cret'' ''k3y'' ''2405685'' ''group''
             (path_str (joinpath (joinpath (absolute cwd (parent (Path ''kerkoapp.py''))) ''data'') ''kerko''))
             k)"
proof -
  from sample_composer obtain k where k: "KERKO_COMPOSER sample_lib ''en'' = Inr k"
    by (auto simp: succeeds_Inr)
  have "Config sample_lib cwd file sample_env =
      Inr (config_attrs sample_lib file (absolute cwd (parent (Path ''kerkoapp.py'')))
             ''s3cret'' ''k3y'' ''2405685'' ''group''
             (case sample_env ''KERKO_DATA_DIR'' of
               None \<Rightarrow> path_str (joinpath (joinpath (absolute cwd (parent (Path ''kerkoapp.py''))) ''data'') ''kerko'')
             | Some v \<Rightarrow> v)
             k)"
    by (rule Config_succeeds[OF _ _ _ _ _ k]) (simp_all add: sample_env_def sample_vars_def)
  then show ?thesis using k that by (simp add: sample_env_def sample_vars_def)
qed

section \<open>The facets\<close>



section \<open>The sort option and the badge\<close>

lemma Config_composer:
  assumes "Config l cwd file env = Inr c"
  obtains k where "KERKO_COMPOSER l ''en'' = Inr k" and "composer_of c = Some k"
  using assms by (elim Config_Inr) (simp add: composer_of_attrs)

text \<open>
  Claim C10. Whenever the class body runs to its end, the sort option registered
  under \<^verbatim>\<open>hub_desc\<close> orders by the four fields \<^verbatim>\<open>edtechhub\<close>, \<^verbatim>\<open>sort_date\<close>,
  \<^verbatim>\<open>sort_creator\<close> and \<^verbatim>\<open>sort_title\<close>, in this order, with the reverse flags
  False, True, False, False.
\<close>

theorem hub_desc_sort_order:
  assumes "Config l cwd file env = Inr c"
  shows "\<exists>k s. composer_of c = Some k \<and> map_of (sorts k) ''hub_desc'' = Some s \<and>
     map key (sort_fields s) = [''edtechhub'', ''sort_date'', ''sort_creator'', ''sort_title''] \<and>
     length (sort_fields s) = 4 \<and>
     reverse s = Some [False, True, False, False]"
proof -
  from assms obtain k where k: "KERKO_COMPOSER l ''en'' = Inr k" and c: "composer_of c = Some k"
    by (rule Config_composer)
  from KERKO_COMPOSER_Inr(3)[OF k] obtain f2 f3 f4 where
    f: "map_of (cfields (composer0 l ''en'')) ''sort_date'' = Some f2"
      "map_of (cfields (composer0 l ''en'')) ''sort_creator'' = Some f3"
      "map_of (cfields (composer0 l ''en'')) ''sort_title'' = Some f4" and
    s: "sorts k = AList.update ''hub_desc'' (hub_desc_sort l [edtechhub_field, f2, f3, f4])
          (sorts (composer0 l ''en''))"
    by blast
  have "key f2 = ''sort_date''" "key f3 = ''sort_creator''" "key f4 = ''sort_title''"
    using f by (auto dest: composer0_keyed)
  then have m: "map key (sort_fields (hub_desc_sort l [edtechhub_field, f2, f3, f4])) =
      [''edtechhub'', ''sort_date'', ''sort_creator'', ''sort_title'']"
    by (simp add: hub_desc_sort_def field_keys)
  have r: "reverse (hub_desc_sort l [edtechhub_field, f2, f3, f4]) =
      Some [False, True, False, False]"
    "length (sort_fields (hub_desc_sort l [edtechhub_field, f2, f3, f4])) = 4"
    by (simp_all add: hub_desc_sort_def)
  have h: "map_of (sorts k) ''hub_desc'' = Some (hub_desc_sort l [edtechhub_field, f2, f3, f4])"
    by (simp add: s update_conv')
  show ?thesis
    by (rule exI[of _ k], rule exI[of _ "hub_desc_sort l [edtechhub_field, f2, f3, f4]"])
      (simp only: c h m r simp_thms)
qed

text \<open>On the instance, the class body runs to its end and the sort option is there.\<close>

theorem hub_desc_sort_order_witness:
  "\<exists>c k s. Config sample_lib ''/srv/a'' ''/srv/a/app/config.py'' sample_env = Inr c \<and>
     composer_of c = Some k \<and> map_of (sorts k) ''hub_desc'' = Some s \<and>
     map key (sort_fields s) = [''edtechhub'', ''sort_date'', ''sort_creator'', ''sort_title''] \<and>
     reverse s = Some [False, True, False, False]"
proof -
  obtain k0 c where c: "Config sample_lib ''/srv/a'' ''/srv/a/app/config.py'' sample_env = Inr c"
    by (rule sample_config[of "''/srv/a''" "''/srv/a/app/config.py''"]) blast
  from hub_desc_sort_order[OF c] obtain k s where
    "composer_of c = Some k \<and> map_of (sorts k) ''hub_desc'' = Some s \<and>
     map key (sort_fields s) = [''edtechhub'', ''sort_date'', ''sort_creator'', ''sort_title''] \<and>
     length (sort_fields s) = 4 \<and>
     reverse s = Some [False, True, False, False]"
    by (elim exE)
  with c show ?thesis
    by (intro exI[of _ c] exI[of _ k] exI[of _ s]) (simp only: simp_thms)
qed

text \<open>
  Claim C6. Whenever the class body runs to its end, the badge registered under
  \<^verbatim>\<open>edtechhub\<close> is active on an item exactly when \<^verbatim>\<open>bool(item.get('edtechhub'))\<close>
  is true; an item without the entry does not activate it.
\<close>

theorem edtechhub_badge_activation:
  assumes "Config l cwd file env = Inr c"
  shows "\<exists>k b. composer_of c = Some k \<and> map_of (badges k) ''edtechhub'' = Some b \<and>
     (\<forall>item. is_active b item = truthy (dict_get item ''edtechhub'')) \<and>
     (\<forall>item. item ''edtechhub'' = None \<longrightarrow> \<not> is_active b item)"
proof -
  from assms obtain k where k: "KERKO_COMPOSER l ''en'' = Inr k" and c: "composer_of c = Some k"
    by (rule Config_composer)
  have b: "map_of (badges k) ''edtechhub'' = Some (edtechhub_badge l edtechhub_field)"
    by (simp add: KERKO_COMPOSER_Inr(2)[OF k] update_conv')
  have a: "is_active (edtechhub_badge l edtechhub_field) item = truthy (dict_get item ''edtechhub'')"
    for item
    by (simp add: is_active_def edtechhub_badge_def field_keys)
  have "\<not> is_active (edtechhub_badge l edtechhub_field) item" if "item ''edtechhub'' = None" for item
    using that by (simp add: a dict_get_def)
  with a b c show ?thesis by blast
qed

text \<open>On the instance: an item flagged true activates the badge, an item without the entry does not.\<close>

theorem edtechhub_badge_activation_witness:
  "\<exists>c k b. Config sample_lib ''/srv/a'' ''/srv/a/app/config.py'' sample_env = Inr c \<and>
     composer_of c = Some k \<and> map_of (badges k) ''edtechhub'' = Some b \<and>
     is_active b (map_of [(''id'', PStr ''ABCD2345''), (''edtechhub'', PBool True)]) \<and>
     \<not> is_active b (map_of [(''id'', PStr ''ABCD2345'')])"
proof -
  obtain k0 c where c: "Config sample_lib ''/srv/a'' ''/srv/a/app/config.py'' sample_env = Inr c"
    by (rule sample_config[of "''/srv/a''" "''/srv/a/app/config.py''"]) blast
  from edtechhub_badge_activation[OF c] obtain k b where
    k: "composer_of c = Some k" "map_of (badges k) ''edtechhub'' = Some b" and
    a: "\<forall>item. is_active b item = truthy (dict_get item ''edtechhub'')"
    by blast
  have "is_active b (map_of [(''id'', PStr ''ABCD2345''), (''edtechhub'', PBool True)])"
    "\<not> is_active b (map_of [(''id'', PStr ''ABCD2345'')])"
    by (simp_all add: a dict_get_def)
  with c k show ?thesis by blast
qed

section \<open>The environment\<close>

lemma not_succeeds_Inl: "r = Inl e \<Longrightarrow> \<not> succeeds r"
  by (simp add: succeeds_def)

lemma sample_data_dir:
  "path_str (joinpath (joinpath (absolute ''/srv/a'' (parent (Path ''kerkoapp.py''))) ''data'') ''kerko'')
     = ''/srv/a/data/kerko''"
  "path_str (joinpath (joinpath (absolute ''/srv/b'' (parent (Path ''kerkoapp.py''))) ''data'') ''kerko'')
     = ''/srv/b/data/kerko''"
  by (simp_all add: path_str_def joinpath_def absolute_def parent_def Path_def path_root_def
      path_parts_def)

lemma Config_required_set:
  assumes "env ''FLASK_APP'' = Some fa" "env ''SECRET_KEY'' = Some sk"
    "env ''KERKO_ZOTERO_API_KEY'' = Some ak" "env ''KERKO_ZOTERO_LIBRARY_ID'' = Some li"
    "env ''KERKO_ZOTERO_LIBRARY_TYPE'' = Some lt"
  shows "Config l cwd file env =
     bind (KERKO_COMPOSER l ''en'') (\<lambda>k.
       Inr (config_attrs l file (absolute cwd (parent (Path fa))) sk ak li lt
           (case env ''KERKO_DATA_DIR'' of
              None \<Rightarrow> path_str (joinpath (joinpath (absolute cwd (parent (Path fa))) ''data'') ''kerko'')
            | Some v \<Rightarrow> v) k))"
  using assms by (simp add: Config_def Let_def bind_def env_str_def split: option.splits)

lemma succeeds_bind_Inr: "succeeds (bind r (\<lambda>x. Inr (f x))) = succeeds r"
  by (cases r) (simp_all add: bind_def succeeds_def)

lemma Config_fallback:
  assumes v: "v \<in> set config_vars" and unset: "env v = None"
    and others: "\<forall>w \<in> set config_vars. w \<noteq> v \<longrightarrow> env w \<noteq> None"
  shows "(v \<noteq> ''KERKO_DATA_DIR'' \<longrightarrow> Config l cwd file env = Inl (EnvError v)) \<and>
     (v = ''KERKO_DATA_DIR'' \<longrightarrow>
        (\<exists>fa. env ''FLASK_APP'' = Some fa \<and>
           Config l cwd file env =
             Config l cwd file (env(''KERKO_DATA_DIR'' \<mapsto>
               path_str (joinpath (joinpath (absolute cwd (parent (Path fa))) ''data'') ''kerko''))) \<and>
           succeeds (Config l cwd file env) = succeeds (KERKO_COMPOSER l ''en'') \<and>
           (\<forall>c. Config l cwd file env = Inr c \<longrightarrow>
              map_of c ''KERKO_DATA_DIR'' =
                Some (SStr (path_str (joinpath (joinpath (absolute cwd (parent (Path fa))) ''data'') ''kerko''))))))"
proof (cases "v = ''KERKO_DATA_DIR''")
  case True
  with others obtain fa sk ak li lt where e:
    "env ''FLASK_APP'' = Some fa" "env ''SECRET_KEY'' = Some sk"
    "env ''KERKO_ZOTERO_API_KEY'' = Some ak" "env ''KERKO_ZOTERO_LIBRARY_ID'' = Some li"
    "env ''KERKO_ZOTERO_LIBRARY_TYPE'' = Some lt"
    by (auto simp: config_vars_def required_vars_def)
  define dd where
    "dd = path_str (joinpath (joinpath (absolute cwd (parent (Path fa))) ''data'') ''kerko'')"
  have d: "env ''KERKO_DATA_DIR'' = None"
    using unset True by simp
  have c: "Config l cwd file env =
      bind (KERKO_COMPOSER l ''en'') (\<lambda>k.
        Inr (config_attrs l file (absolute cwd (parent (Path fa))) sk ak li lt dd k))"
    using Config_required_set[OF e, of l cwd "file"] by (simp add: d dd_def)
  have "Config l cwd file (env(''KERKO_DATA_DIR'' \<mapsto> dd)) =
      bind (KERKO_COMPOSER l ''en'') (\<lambda>k.
        Inr (config_attrs l file (absolute cwd (parent (Path fa))) sk ak li lt dd k))"
    using Config_required_set[of "env(''KERKO_DATA_DIR'' \<mapsto> dd)" fa sk ak li lt l cwd "file"] e
    by simp
  with c have same: "Config l cwd file env = Config l cwd file (env(''KERKO_DATA_DIR'' \<mapsto> dd))"
    by simp
  have s: "succeeds (Config l cwd file env) = succeeds (KERKO_COMPOSER l ''en'')"
    unfolding c by (rule succeeds_bind_Inr)
  have a: "map_of x ''KERKO_DATA_DIR'' = Some (SStr dd)" if "Config l cwd file env = Inr x" for x
    using that unfolding c by (auto simp: bind_Inr data_dir_attrs)
  from e(1) same s a True show ?thesis
    unfolding dd_def by blast
next
  case False
  with v have "v \<in> set required_vars"
    by (simp add: config_vars_def)
  from Config_missing[of v env l cwd "file", OF this unset]
  obtain m where m: "m \<in> set required_vars" "env m = None"
    "Config l cwd file env = Inl (EnvError m)"
    by blast
  have "m = v"
  proof (rule ccontr)
    assume "m \<noteq> v"
    with others m(1) have "env m \<noteq> None"
      by (simp add: config_vars_def)
    with m(2) show False by simp
  qed
  with m(3) False show ?thesis
    by simp
qed

lemma load_module_Config_Inl:
  "Config l cwd file (read_env dotenv environ) = Inl e \<Longrightarrow>
   load_module l cwd file dotenv environ = Inl e"
  by (simp add: load_module_def bind_def)

lemma subclasses_default:
  assumes "env ''ASSETS_DEBUG'' = None" "env ''KERKO_ZOTERO_START'' = None"
    "env ''KERKO_ZOTERO_END'' = None"
  shows "succeeds (DevelopmentConfig l env)" and "succeeds (ProductionConfig l env)"
  using assms
  by (simp_all add: DevelopmentConfig_def ProductionConfig_def env_parsed_def env_str_def bind_def
      succeeds_def split: option.splits)

lemma load_module_succeeds:
  assumes "succeeds (Config l cwd file (read_env dotenv environ))"
    and "succeeds (DevelopmentConfig l (read_env dotenv environ))"
    and "succeeds (ProductionConfig l (read_env dotenv environ))"
  shows "succeeds (load_module l cwd file dotenv environ)"
  using assms by (auto simp: load_module_def bind_def succeeds_Inr)

lemma sample_config_succeeds: "succeeds (Config sample_lib cwd file sample_env)"
  by (rule sample_config[of cwd "file"]) (simp add: succeeds_def)

text \<open>
  Claim C2, amended. The variables are looked up after \<^verbatim>\<open>env.read_env()\<close> has added
  those of the \<^verbatim>\<open>.env\<close> file. When one of the five required variables is set neither
  by the process environment nor by that file, the class \<^verbatim>\<open>Config\<close> raises the
  error of a required variable that is not set, loading the module raises the same
  error, and no module is produced.
\<close>

theorem missing_required_variable:
  assumes "n \<in> set required_vars" and "read_env dotenv environ n = None"
  shows "\<exists>m. m \<in> set required_vars \<and> read_env dotenv environ m = None \<and>
     Config l cwd file (read_env dotenv environ) = Inl (EnvError m) \<and>
     load_module l cwd file dotenv environ = Inl (EnvError m)"
proof -
  from Config_missing[of n "read_env dotenv environ" l cwd "file", OF assms]
  obtain m where "m \<in> set required_vars" "read_env dotenv environ m = None"
    "Config l cwd file (read_env dotenv environ) = Inl (EnvError m)"
    by blast
  then show ?thesis
    using load_module_Config_Inl by blast
qed

text \<open>On the instance without \<^verbatim>\<open>SECRET_KEY\<close> and without a \<^verbatim>\<open>.env\<close> file.\<close>

theorem missing_required_variable_witness:
  "load_module sample_lib ''/srv/a'' ''/srv/a/app/config.py'' None
     (map_of (filter (\<lambda>(n, v). n \<noteq> ''SECRET_KEY'') sample_vars)) = Inl (EnvError ''SECRET_KEY'')"
proof -
  define e where "e = map_of (filter (\<lambda>(n, v). n \<noteq> ''SECRET_KEY'') sample_vars)"
  have e: "read_env None e = e"
    by (simp add: read_env_def)
  have r: "m = ''SECRET_KEY''" if "m \<in> set required_vars" "e m = None" for m
    using that by (auto simp: required_vars_def e_def sample_vars_def)
  have "''SECRET_KEY'' \<in> set required_vars" "read_env None e ''SECRET_KEY'' = None"
    by (simp_all add: required_vars_def read_env_def e_def sample_vars_def)
  from missing_required_variable[OF this, of sample_lib "''/srv/a''" "''/srv/a/app/config.py''"]
  obtain m where "m \<in> set required_vars" "e m = None"
    "load_module sample_lib ''/srv/a'' ''/srv/a/app/config.py'' None e = Inl (EnvError m)"
    unfolding e by blast
  with r show ?thesis
    unfolding e_def by blast
qed

text \<open>
  The claim as stated fails: with an empty process environment and a \<^verbatim>\<open>.env\<close> file
  that sets the five variables, the module loads.
\<close>

theorem unset_in_process_environment_counterexample:
  "(map_of [] :: environ) ''SECRET_KEY'' = None \<and>
   succeeds (load_module sample_lib ''/srv/a'' ''/srv/a/app/config.py'' (Some sample_env) (map_of []))"
proof -
  have e: "read_env (Some sample_env) (map_of []) = sample_env"
    by (simp add: read_env_def)
  have "succeeds (load_module sample_lib ''/srv/a'' ''/srv/a/app/config.py'' (Some sample_env) (map_of []))"
    by (rule load_module_succeeds; simp only: e)
      (rule sample_config_succeeds, (rule subclasses_default; simp add: sample_env_def sample_vars_def)+)
  then show ?thesis by simp
qed

lemma Config_depends:
  assumes "\<forall>v \<in> set config_vars. env1 v = env2 v"
  shows "Config l cwd file env1 = Config l cwd file env2"
  using assms by (simp add: Config_def env_str_def config_vars_def required_vars_def)

lemma subclasses_depend:
  assumes "env1 ''ASSETS_DEBUG'' = env2 ''ASSETS_DEBUG''"
    "env1 ''KERKO_ZOTERO_START'' = env2 ''KERKO_ZOTERO_START''"
    "env1 ''KERKO_ZOTERO_END'' = env2 ''KERKO_ZOTERO_END''"
    "env1 ''LOGGING_LEVEL'' = env2 ''LOGGING_LEVEL''"
  shows "DevelopmentConfig l env1 = DevelopmentConfig l env2"
    and "ProductionConfig l env1 = ProductionConfig l env2"
  using assms
  by (simp_all add: DevelopmentConfig_def ProductionConfig_def env_parsed_def env_str_def)

text \<open>
  Claim C7, amended. What loading the module produces is a function of the library,
  the working directory, the location of the module and the values, after
  \<^verbatim>\<open>env.read_env()\<close>, of the ten variables that the module reads: two runs that agree
  on these produce the same module, errors included.
\<close>

theorem module_is_a_function_of_its_inputs:
  assumes "\<forall>v \<in> set module_vars. read_env d1 e1 v = read_env d2 e2 v"
  shows "load_module l cwd file d1 e1 = load_module l cwd file d2 e2"
proof -
  have c: "Config l cwd file (read_env d1 e1) = Config l cwd file (read_env d2 e2)"
    by (rule Config_depends) (use assms in \<open>simp add: module_vars_def\<close>)
  have d: "DevelopmentConfig l (read_env d1 e1) = DevelopmentConfig l (read_env d2 e2)"
    by (rule subclasses_depend) (use assms in \<open>simp_all add: module_vars_def\<close>)
  have p: "ProductionConfig l (read_env d1 e1) = ProductionConfig l (read_env d2 e2)"
    by (rule subclasses_depend) (use assms in \<open>simp_all add: module_vars_def\<close>)
  show ?thesis
    by (simp add: load_module_def Let_def c d p)
qed

text \<open>
  On the instance: the variables come from the process environment in one run and
  from the \<^verbatim>\<open>.env\<close> file in the other, where the process sets one more variable.
\<close>

theorem module_is_a_function_of_its_inputs_witness:
  "load_module sample_lib ''/srv/a'' ''/srv/a/app/config.py'' None sample_env =
   load_module sample_lib ''/srv/a'' ''/srv/a/app/config.py'' (Some sample_env)
     (map_of [(''HOME'', ''/root'')])"
proof -
  have "\<forall>v \<in> set module_vars.
      read_env None sample_env v = read_env (Some sample_env) (map_of [(''HOME'', ''/root'')]) v"
    by (simp add: module_vars_def config_vars_def required_vars_def read_env_def map_add_def)
  then show ?thesis
    by (rule module_is_a_function_of_its_inputs)
qed

lemma load_module_data_dir:
  assumes "load_module l cwd file dotenv environ = Inr m"
  obtains fa where "read_env dotenv environ ''FLASK_APP'' = Some fa"
    and "map_of (config m) ''KERKO_DATA_DIR'' =
      Some (SStr (case read_env dotenv environ ''KERKO_DATA_DIR'' of
          None \<Rightarrow> path_str (joinpath (joinpath (absolute cwd (parent (Path fa))) ''data'') ''kerko'')
        | Some v \<Rightarrow> v))"
proof -
  from assms obtain c where c: "Config l cwd file (read_env dotenv environ) = Inr c"
    and m: "config m = c"
    unfolding load_module_def Let_def by (elim bindE) auto
  from c show ?thesis
    by (elim Config_Inr) (rule that, assumption, simp add: m data_dir_attrs)
qed

lemma sample_module_succeeds:
  "succeeds (load_module sample_lib cwd file None sample_env)"
proof -
  have e: "read_env None sample_env = sample_env"
    by (simp add: read_env_def)
  show ?thesis
    by (rule load_module_succeeds; simp only: e)
      (rule sample_config_succeeds, (rule subclasses_default; simp add: sample_env_def sample_vars_def)+)
qed

text \<open>
  The claim as stated fails: two runs with the same environment and a relative
  \<^verbatim>\<open>FLASK_APP\<close>, started in different working directories, produce different values of
  \<^verbatim>\<open>KERKO_DATA_DIR\<close>.
\<close>

theorem working_directory_counterexample:
  "load_module sample_lib ''/srv/a'' ''/srv/a/app/config.py'' None sample_env \<noteq>
   load_module sample_lib ''/srv/b'' ''/srv/a/app/config.py'' None sample_env"
proof
  assume eq: "load_module sample_lib ''/srv/a'' ''/srv/a/app/config.py'' None sample_env =
    load_module sample_lib ''/srv/b'' ''/srv/a/app/config.py'' None sample_env"
  from sample_module_succeeds[of "''/srv/a''" "''/srv/a/app/config.py''"]
  obtain m where a: "load_module sample_lib ''/srv/a'' ''/srv/a/app/config.py'' None sample_env = Inr m"
    by (auto simp: succeeds_Inr)
  with eq have b: "load_module sample_lib ''/srv/b'' ''/srv/a/app/config.py'' None sample_env = Inr m"
    by simp
  have e: "read_env None sample_env ''FLASK_APP'' = Some ''kerkoapp.py''"
    "read_env None sample_env ''KERKO_DATA_DIR'' = None"
    by (simp_all add: read_env_def sample_env_def sample_vars_def)
  from a have "map_of (config m) ''KERKO_DATA_DIR'' = Some (SStr ''/srv/a/data/kerko'')"
    by (elim load_module_data_dir) (simp add: e sample_data_dir)
  moreover from b have "map_of (config m) ''KERKO_DATA_DIR'' = Some (SStr ''/srv/b/data/kerko'')"
    by (elim load_module_data_dir) (simp add: e sample_data_dir)
  ultimately show False
    by simp
qed

section \<open>The matcher\<close>

declare finditer_from.simps [simp del]

lemma flags_simps:
  "has_flag 0 IGNORECASE = False" "has_flag 0 MULTILINE = False"
  "has_flag (IGNORECASE OR MULTILINE) IGNORECASE = True"
  "has_flag (IGNORECASE OR MULTILINE) MULTILINE = True"
  by (simp_all add: has_flag_def IGNORECASE_def MULTILINE_def)

lemma rmatch_ones:
  "rmatch (map One ks @ ts) fl c (b, s) =
     (if length ks \<le> length s \<and> list_all2 (cls_ok fl) ks (take (length ks) s)
      then rmatch ts fl c (rev (take (length ks) s) @ b, drop (length ks) s)
      else None)"
proof (induction ks arbitrary: b s)
  case Nil
  show ?case by simp
next
  case (Cons k ks)
  show ?case
  proof (cases s)
    case Nil
    then show ?thesis by simp
  next
    case (Cons a r)
    then show ?thesis by (simp add: Cons.IH)
  qed
qed

lemma lits_plain: "list_all2 (cls_ok 0) (map Lit w) x \<longleftrightarrow> x = w"
proof (induction w arbitrary: x)
  case Nil
  show ?case by simp
next
  case (Cons c w)
  show ?case by (cases x) (auto simp: Cons.IH flags_simps)
qed

lemma rmatch_literal:
  "rmatch (literal w @ ts) 0 c (b, s) =
     (if take (length w) s = w then rmatch ts 0 c (rev w @ b, drop (length w) s) else None)"
proof (cases "length w \<le> length s")
  case True
  then show ?thesis
    unfolding literal_def rmatch_ones length_map lits_plain by simp
next
  case False
  have "length (take (length w) s) \<noteq> length w"
    using False by simp
  then have "take (length w) s \<noteq> w"
    by auto
  with False show ?thesis
    unfolding literal_def rmatch_ones length_map lits_plain by simp
qed

lemma rmatch_literal_end:
  "rmatch (literal w) 0 c (b, s) =
     (if take (length w) s = w then Some ((rev w @ b, drop (length w) s), c) else None)"
  using rmatch_literal[of w "[]"] by simp

lemma retry_first:
  "k (advance n st) = Some r \<Longrightarrow> lo \<le> n \<Longrightarrow> retry k st lo n = Some r"
  by (cases n) (simp_all add: advance_def)

lemma compiled_preview:
  "compile ''^<span>'' = Some (Bol # literal ''<span>'')"
  "compile ''</span>$'' = Some (literal ''</span>'' @ [Eol])"
  by (simp_all add: compile_def backslash_def special_def literal_def)

section \<open>The preview\<close>

lemma at_eol_plain: "at_eol 0 (b, r) \<longleftrightarrow> r = [] \<or> r = [newline]"
  by (simp add: at_eol_def flags_simps)

lemma at_bol_plain: "at_bol 0 (b, r) \<longleftrightarrow> b = []"
  by (simp add: at_bol_def flags_simps)

lemma ends_with_Cons:
  assumes "suf \<noteq> []"
  shows "ends_with suf (a # r) \<longleftrightarrow> a # r = suf \<or> ends_with suf r"
proof (cases "length suf \<le> length r")
  case True
  then have "a # r \<noteq> suf" by auto
  with True show ?thesis by (simp add: ends_with_def Suc_diff_le)
next
  case False
  show ?thesis
  proof (cases "length suf = Suc (length r)")
    case True
    then show ?thesis by (auto simp: ends_with_def)
  next
    case False
    with \<open>\<not> length suf \<le> length r\<close> have "length suf > length (a # r)" by simp
    then have "a # r \<noteq> suf" by auto
    with \<open>length suf > length (a # r)\<close> show ?thesis by (simp add: ends_with_def)
  qed
qed

lemma no_bol_later: "b \<noteq> [] \<Longrightarrow> finditer_from (Bol # ts) 0 (b, s) = []"
proof (induction s arbitrary: b)
  case Nil
  then show ?case
    by (subst finditer_from.simps) (simp add: at_bol_plain)
next
  case (Cons a r)
  from Cons.prems Cons.IH[of "a # b"] show ?case
    by (subst finditer_from.simps) (simp add: at_bol_plain)
qed

lemma finditer_open:
  assumes "w \<noteq> []"
  shows "finditer_from (Bol # literal w) 0 ([], s) =
     (if starts_with w s then [\<lparr>mstart = 0, mend = length w, mgroup = None\<rparr>] else [])"
proof (cases "starts_with w s")
  case True
  then have t: "take (length w) s = w" by (simp add: starts_with_def)
  then have "length (take (length w) s) = length w" by simp
  then have l: "length w \<le> length s" by simp
  have m: "rmatch (Bol # literal w) 0 no_cap ([], s) =
      Some ((rev w, drop (length w) s), no_cap)"
    unfolding rmatch.simps tok.case at_bol_plain rmatch_literal_end using t by simp
  have n: "finditer_from (Bol # literal w) 0 (rev w, drop (length w) s) = []"
    by (rule no_bol_later) (simp add: assms)
  have d: "length s - length w < length s"
    using l assms by (cases w) simp_all
  show ?thesis
    using True
    by (subst finditer_from.simps) (simp only: m n option.case prod.case, simp add: no_cap_def d)
next
  case False
  then have t: "take (length w) s \<noteq> w" by (simp add: starts_with_def)
  have m: "rmatch (Bol # literal w) 0 no_cap ([], s) = None"
    unfolding rmatch.simps tok.case at_bol_plain rmatch_literal_end using t by simp
  show ?thesis
    using False
    by (subst finditer_from.simps) (simp only: m option.case, simp add: no_bol_later split: list.splits)
qed

lemma match_close:
  "rmatch (literal w @ [Eol]) 0 c (b, s) =
     (if s = w \<or> s = w @ [newline] then Some ((rev w @ b, drop (length w) s), c) else None)"
proof -
  have "s = w @ t \<longleftrightarrow> take (length w) s = w \<and> drop (length w) s = t" for t
    by (metis append_eq_conv_conj)
  from this[of "[]"] this[of "[newline]"] show ?thesis
    unfolding rmatch_literal rmatch.simps tok.case at_eol_plain by auto
qed

lemma ends_with_last:
  assumes "ends_with suf s" and "suf \<noteq> []"
  shows "last s = last suf"
proof -
  from assms(1) have "s = take (length s - length suf) s @ suf"
    by (metis append_take_drop_id ends_with_def)
  with assms(2) show ?thesis
    by (metis last_appendR)
qed

lemma finditer_newline:
  assumes "w \<noteq> []" and "newline \<notin> set w"
  shows "finditer_from (literal w @ [Eol]) 0 (b, [newline]) = []"
proof -
  have "[newline] \<noteq> w" "[newline] \<noteq> w @ [newline]" "[] \<noteq> w"
    using assms by auto
  then show ?thesis
    by (subst finditer_from.simps, simp only: match_close, simp)
      (subst finditer_from.simps, simp only: match_close, simp)
qed

lemma finditer_empty:
  assumes "w \<noteq> []"
  shows "finditer_from (literal w @ [Eol]) 0 (b, []) = []"
  using assms by (subst finditer_from.simps, simp only: match_close) auto

lemma finditer_exact:
  assumes "w \<noteq> []"
  shows "finditer_from (literal w @ [Eol]) 0 (b, w) =
    [\<lparr>mstart = length b, mend = length b + length w, mgroup = None\<rparr>]"
  using assms
  by (subst finditer_from.simps, simp only: match_close)
    (simp add: no_cap_def finditer_empty)

lemma finditer_line:
  assumes "w \<noteq> []" and "newline \<notin> set w"
  shows "finditer_from (literal w @ [Eol]) 0 (b, w @ [newline]) =
    [\<lparr>mstart = length b, mend = length b + length w, mgroup = None\<rparr>]"
  using assms
  by (subst finditer_from.simps, simp only: match_close)
    (simp add: no_cap_def finditer_newline)

lemma finditer_close:
  assumes w: "w \<noteq> []" and nl: "newline \<notin> set w"
  shows "finditer_from (literal w @ [Eol]) 0 (b, s) =
     (if ends_with w s then
        [\<lparr>mstart = length b + (length s - length w), mend = length b + length s, mgroup = None\<rparr>]
      else if ends_with (w @ [newline]) s then
        [\<lparr>mstart = length b + (length s - Suc (length w)), mend = length b + (length s - 1),
          mgroup = None\<rparr>]
      else [])"
proof (induction s arbitrary: b)
  case Nil
  have "\<not> ends_with w []" "\<not> ends_with (w @ [newline]) []"
    using w by (simp_all add: ends_with_def)
  then show ?case
    by (simp add: finditer_empty[OF w])
next
  case (Cons a r)
  have excl: "\<not> ends_with w s" if "ends_with (w @ [newline]) s" for s
  proof
    assume "ends_with w s"
    from ends_with_last[OF this w] ends_with_last[OF that] have "last w = newline"
      by simp
    with w nl show False
      using last_in_set by metis
  qed
  consider (exact) "a # r = w" | (line) "a # r = w @ [newline]"
    | (other) "a # r \<noteq> w" "a # r \<noteq> w @ [newline]"
    by blast
  then show ?case
  proof cases
    case exact
    have "ends_with w w"
      by (simp add: ends_with_def)
    then show ?thesis
      unfolding exact by (simp add: finditer_exact[OF w])
  next
    case line
    have e: "ends_with (w @ [newline]) (w @ [newline])"
      by (simp add: ends_with_def)
    from excl[OF e] e show ?thesis
      unfolding line by (simp add: finditer_line[OF w nl])
  next
    case other
    have e1: "ends_with w (a # r) = ends_with w r"
      using other(1) by (simp add: ends_with_Cons[OF w])
    have e2: "ends_with (w @ [newline]) (a # r) = ends_with (w @ [newline]) r"
      using other(2) by (simp add: ends_with_Cons)
    have l1: "length w \<le> length r" if "ends_with w r"
      using that by (simp add: ends_with_def)
    have l2: "Suc (length w) \<le> length r" if "ends_with (w @ [newline]) r"
      using that by (simp add: ends_with_def)
    show ?thesis
      using other
      by (subst finditer_from.simps)
        (simp only: match_close, auto simp: Cons.IH e1 e2 Suc_diff_le dest: l1 l2)
  qed
qed

lemma re_sub_open:
  "re_sub ''^<span>'' repl s 1 = Inr (replace_leading ''<span>'' repl s)"
  by (simp add: re_sub_def finditer_def compiled_preview finditer_open replace_leading_def)

lemma drop_last_newline:
  assumes "ends_with (w @ [newline]) s"
  shows "drop (length s - Suc 0) s = [newline]"
proof -
  from assms have l: "Suc (length w) \<le> length s"
    and d: "drop (length s - Suc (length w)) s = w @ [newline]"
    by (simp_all add: ends_with_def)
  have "drop (length s - Suc 0) s = drop (length w) (drop (length s - Suc (length w)) s)"
    using l by simp
  then show ?thesis
    by (simp add: d)
qed

lemma re_sub_close:
  "re_sub ''</span>$'' repl s 1 =
     Inr (if ends_with (''</span>'' @ [newline]) s
          then replace_trailing (''</span>'' @ [newline]) (repl @ [newline]) s
          else replace_trailing ''</span>'' repl s)"
proof -
  have w: "''</span>'' \<noteq> []" "newline \<notin> set ''</span>''"
    by (simp_all add: newline_def)
  have excl: "\<not> ends_with ''</span>'' s" if "ends_with (''</span>'' @ [newline]) s"
  proof
    assume "ends_with ''</span>'' s"
    from ends_with_last[OF this w(1)] ends_with_last[OF that] show False
      by (simp add: newline_def)
  qed
  have f: "finditer ''</span>$'' 0 s = Inr (finditer_from (literal ''</span>'' @ [Eol]) 0 ([], s))"
    by (simp add: finditer_def compiled_preview)
  show ?thesis
  proof (cases "ends_with (''</span>'' @ [newline]) s")
    case True
    from drop_last_newline[OF True] excl[OF True] True show ?thesis
      unfolding re_sub_def f finditer_close[OF w]
      by (simp add: replace_trailing_def)
  next
    case False
    then show ?thesis
      unfolding re_sub_def f finditer_close[OF w]
      by (simp add: replace_trailing_def)
  qed
qed

lemma preview_value:
  \<open>apply_transformers [preview_open, preview_close] (PStr v) =
     Inr (PStr (let w = replace_leading ''<span>'' ''<div class="csl-entry">'' v in
                if ends_with (''</span>'' @ [newline]) w
                then replace_trailing (''</span>'' @ [newline]) (''</div>'' @ [newline]) w
                else replace_trailing ''</span>'' ''</div>'' w))\<close>
  by (simp add: preview_open_def preview_close_def on_str_def bind_def
      re_sub_open[unfolded One_nat_def] re_sub_close[unfolded One_nat_def] Let_def)

lemma preview_extract:
  assumes "item_top item ''citation'' = Some (PStr v)"
  shows "do_extract other (extractor preview_field) item =
    apply_transformers [preview_open, preview_close] (PStr v)"
  using assms by (simp add: preview_field_def dict_get_def bind_def)

text \<open>
  Claim C5, amended. For every citation string, the two transformers of the field
  \<^verbatim>\<open>preview\<close> replace a leading \<^verbatim>\<open><span>\<close> by \<^verbatim>\<open><div class="csl-entry">\<close> and then a
  trailing \<^verbatim>\<open></span>\<close>, which may stand at the very end of the string or before one
  final line break, by \<^verbatim>\<open></div>\<close>; each replacement is made at most once, and a
  string with no such prefix and no such ending is returned unchanged.
\<close>

theorem preview_replaces_the_wrapping_span:
  assumes \<open>item_top item ''citation'' = Some (PStr v)\<close>
  shows \<open>do_extract other (extractor preview_field) item =
      Inr (PStr (let w = replace_leading ''<span>'' ''<div class="csl-entry">'' v in
                 if ends_with (''</span>'' @ [newline]) w
                 then replace_trailing (''</span>'' @ [newline]) (''</div>'' @ [newline]) w
                 else replace_trailing ''</span>'' ''</div>'' w)) \<and>
    (\<not> starts_with ''<span>'' v \<and> \<not> ends_with ''</span>'' v \<and>
     \<not> ends_with (''</span>'' @ [newline]) v \<longrightarrow>
       do_extract other (extractor preview_field) item = Inr (PStr v))\<close>
  unfolding preview_extract[OF assms] preview_value
  by (simp add: Let_def replace_leading_def replace_trailing_def)

text \<open>On a citation as the Zotero API wraps it.\<close>

theorem preview_replaces_the_wrapping_span_witness:
  \<open>do_extract no_other (extractor preview_field)
     (item_with_citation ''<span>(Hassler et al., 2020)</span>'') =
   Inr (PStr ''<div class="csl-entry">(Hassler et al., 2020)</div>'')\<close>
proof -
  have \<open>item_top (item_with_citation ''<span>(Hassler et al., 2020)</span>'') ''citation'' =
      Some (PStr ''<span>(Hassler et al., 2020)</span>'')\<close>
    by (simp add: item_with_citation_def)
  from preview_replaces_the_wrapping_span[OF this, of no_other] show ?thesis
    by (simp add: Let_def replace_leading_def replace_trailing_def starts_with_def ends_with_def
        newline_def)
qed

text \<open>
  The claim as stated fails: a string that ends with a line break after
  \<^verbatim>\<open></span>\<close> has neither the prefix nor the suffix, and is changed.
\<close>

theorem preview_final_newline_counterexample:
  "\<not> starts_with ''<span>'' (''x</span>'' @ [newline]) \<and>
   \<not> ends_with ''</span>'' (''x</span>'' @ [newline]) \<and>
   do_extract no_other (extractor preview_field) (item_with_citation (''x</span>'' @ [newline])) =
     Inr (PStr (''x</div>'' @ [newline]))"
proof -
  have "item_top (item_with_citation (''x</span>'' @ [newline])) ''citation'' =
      Some (PStr (''x</span>'' @ [newline]))"
    by (simp add: item_with_citation_def)
  then show ?thesis
    unfolding preview_extract[OF \<open>item_top _ _ = _\<close>] preview_value
    by (simp add: Let_def replace_leading_def replace_trailing_def starts_with_def ends_with_def
        newline_def)
qed

section \<open>The alternate identifiers\<close>

lemma run_none: "s = [] \<or> \<not> cls_ok fl k (hd s) \<Longrightarrow> run fl k s = 0"
  by (cases s) (auto simp: run_def)

lemma run_all:
  assumes "\<forall>a \<in> set u. cls_ok fl k a" and "s = [] \<or> \<not> cls_ok fl k (hd s)"
  shows "run fl k (u @ s) = length u"
proof -
  have "takeWhile (cls_ok fl k) (u @ s) = u @ takeWhile (cls_ok fl k) s"
    using assms(1) by (simp add: takeWhile_append2)
  moreover have "takeWhile (cls_ok fl k) s = []"
    using assms(2) by (cases s) auto
  ultimately show ?thesis
    by (simp add: run_def)
qed

lemma advance_append: "advance (length u) (b, u @ s) = (rev u @ b, s)"
  by (simp add: advance_def)

lemma star_takes_all:
  assumes "\<forall>a \<in> set u. cls_ok fl k a" and "s = [] \<or> \<not> cls_ok fl k (hd s)"
    and "rmatch ts fl c (rev u @ b, s) = Some r"
  shows "rmatch (Star k # ts) fl c (b, u @ s) = Some r"
  using assms(3) by (simp add: run_all[OF assms(1,2)] retry_first advance_append)

lemma star_takes_none:
  assumes "s = [] \<or> \<not> cls_ok fl k (hd s)"
  shows "rmatch (Star k # ts) fl c (b, s) = rmatch ts fl c (b, s)"
  by (simp add: run_none[OF assms])

lemma scan_skip:
  assumes "\<forall>i < length pre. rmatch ts fl no_cap (rev (take i pre) @ b, drop i pre @ rest) = None"
  shows "finditer_from ts fl (b, pre @ rest) = finditer_from ts fl (rev pre @ b, rest)"
  using assms
proof (induction pre arbitrary: b)
  case Nil
  show ?case by simp
next
  case (Cons a p)
  from Cons.prems[rule_format, of 0] have n: "rmatch ts fl no_cap (b, a # p @ rest) = None"
    by simp
  have "\<forall>i < length p. rmatch ts fl no_cap (rev (take i p) @ a # b, drop i p @ rest) = None"
  proof (intro allI impI)
    fix i assume "i < length p"
    with Cons.prems[rule_format, of "Suc i"] show
      "rmatch ts fl no_cap (rev (take i p) @ a # b, drop i p @ rest) = None"
      by simp
  qed
  from Cons.IH[OF this] have "finditer_from ts fl (a # b, p @ rest) =
      finditer_from ts fl (rev (a # p) @ b, rest)"
    by simp
  then show ?case
    by (subst finditer_from.simps) (simp add: n)
qed

lemma label_line_match:
  assumes fl: "fl = IGNORECASE OR MULTILINE"
    and ks: "list_all2 (cls_ok fl) ks L" and L: "L \<noteq> []" "\<not> isspace (hd L)" "\<not> isspace (last L)"
    and bol: "b = [] \<or> hd b = newline"
    and ids: "ids \<noteq> []" "\<not> isspace (hd ids)" "newline \<notin> set ids"
    and post: "post = [] \<or> hd post = newline"
  shows "rmatch (Bol # Star Space # map One ks @
            [Star Space, One (Lit CHR '':''), Star Space, GOpen, Star Dot, GClose, Eol])
          fl no_cap (b, L @ '': '' @ ids @ post) =
         Some ((rev (L @ '': '' @ ids) @ b, post), \<lparr>opened = Some (ids @ post), group1 = Some ids\<rparr>)"
proof -
  have len: "length ks = length L"
    using ks by (rule list_all2_lengthD)
  have e7: "rmatch [GClose, Eol] fl \<lparr>opened = Some (ids @ post), group1 = None\<rparr>
      (rev ids @ CHR '' '' # CHR '':'' # rev L @ b, post) =
      Some ((rev ids @ CHR '' '' # CHR '':'' # rev L @ b, post),
        \<lparr>opened = Some (ids @ post), group1 = Some ids\<rparr>)"
    using post by (auto simp: at_eol_def fl flags_simps)
  have e6: "rmatch [Star Dot, GClose, Eol] fl \<lparr>opened = Some (ids @ post), group1 = None\<rparr>
      (CHR '' '' # CHR '':'' # rev L @ b, ids @ post) =
      Some ((rev ids @ CHR '' '' # CHR '':'' # rev L @ b, post),
        \<lparr>opened = Some (ids @ post), group1 = Some ids\<rparr>)"
    by (rule star_takes_all) (use ids post e7 in auto)
  have e5: "rmatch [GOpen, Star Dot, GClose, Eol] fl no_cap
      (CHR '' '' # CHR '':'' # rev L @ b, ids @ post) =
      Some ((rev ids @ CHR '' '' # CHR '':'' # rev L @ b, post),
        \<lparr>opened = Some (ids @ post), group1 = Some ids\<rparr>)"
    using e6 by (simp add: no_cap_def)
  have e4: "rmatch [Star Space, GOpen, Star Dot, GClose, Eol] fl no_cap
      (CHR '':'' # rev L @ b, '' '' @ ids @ post) =
      Some ((rev ids @ CHR '' '' # CHR '':'' # rev L @ b, post),
        \<lparr>opened = Some (ids @ post), group1 = Some ids\<rparr>)"
    by (rule star_takes_all) (use ids e5 in \<open>auto simp: isspace_def\<close>)
  have e3: "rmatch [One (Lit CHR '':''), Star Space, GOpen, Star Dot, GClose, Eol] fl no_cap
      (rev L @ b, '': '' @ ids @ post) =
      Some ((rev ids @ CHR '' '' # CHR '':'' # rev L @ b, post),
        \<lparr>opened = Some (ids @ post), group1 = Some ids\<rparr>)"
    using e4 by (simp add: fl flags_simps)
  have e2: "rmatch [Star Space, One (Lit CHR '':''), Star Space, GOpen, Star Dot, GClose, Eol] fl no_cap
      (rev L @ b, '': '' @ ids @ post) =
      Some ((rev ids @ CHR '' '' # CHR '':'' # rev L @ b, post),
        \<lparr>opened = Some (ids @ post), group1 = Some ids\<rparr>)"
  proof -
    have "'': '' @ ids @ post = [] \<or> \<not> cls_ok fl Space (hd ('': '' @ ids @ post))"
      by (simp add: isspace_def)
    from star_takes_none[OF this] e3 show ?thesis
      by simp
  qed
  have e1: "rmatch (map One ks @
        [Star Space, One (Lit CHR '':''), Star Space, GOpen, Star Dot, GClose, Eol]) fl no_cap
      (b, L @ '': '' @ ids @ post) =
      Some ((rev ids @ CHR '' '' # CHR '':'' # rev L @ b, post),
        \<lparr>opened = Some (ids @ post), group1 = Some ids\<rparr>)"
    unfolding rmatch_ones using ks e2 by (simp add: len)
  have s0: "L @ '': '' @ ids @ post = [] \<or> \<not> cls_ok fl Space (hd (L @ '': '' @ ids @ post))"
    using L by simp
  have "at_bol fl (b, L @ '': '' @ ids @ post)"
    using bol by (auto simp: at_bol_def fl flags_simps)
  then have "rmatch (Bol # Star Space # map One ks @
            [Star Space, One (Lit CHR '':''), Star Space, GOpen, Star Dot, GClose, Eol])
          fl no_cap (b, L @ '': '' @ ids @ post) =
        rmatch (Star Space # map One ks @
            [Star Space, One (Lit CHR '':''), Star Space, GOpen, Star Dot, GClose, Eol])
          fl no_cap (b, L @ '': '' @ ids @ post)"
    by (subst rmatch.simps) simp
  also have "\<dots> = rmatch (map One ks @
            [Star Space, One (Lit CHR '':''), Star Space, GOpen, Star Dot, GClose, Eol])
          fl no_cap (b, L @ '': '' @ ids @ post)"
    by (rule star_takes_none[OF s0])
  also note e1
  finally show ?thesis
    by simp
qed

lemma compiled_kerkocite:
  "compile kerkocite_regex =
     Some (Bol # Star Space # map One (map Lit ''KerkoCite'' @ [Dot] @ map Lit ''ItemAlsoKnownAs'') @
       [Star Space, One (Lit CHR '':''), Star Space, GOpen, Star Dot, GClose, Eol])"
  by (simp add: compile_def kerkocite_regex_def backslash_def special_def)

lemma kerkocite_label:
  "list_all2 (cls_ok (IGNORECASE OR MULTILINE))
     (map Lit ''KerkoCite'' @ [Dot] @ map Lit ''ItemAlsoKnownAs'') ''KerkoCite.ItemAlsoKnownAs''"
  by (simp add: flags_simps newline_def)

lemma find_first:
  assumes "finditer regex flags s = Inr (m # ms)"
  shows "find regex flags 1 (PStr s) = Inr (group_val m)"
  using assms by (simp add: find_def on_str_def bind_def)

lemma kerkocite_finditer:
  assumes start: "pre = [] \<or> last pre = newline"
    and first: "\<forall>i < length pre. match_at kerkocite_regex (IGNORECASE OR MULTILINE)
        (pre @ ''KerkoCite.ItemAlsoKnownAs: '' @ ids @ post) i = None"
    and ids: "ids \<noteq> []" "\<not> isspace (hd ids)" "newline \<notin> set ids"
    and post: "post = [] \<or> hd post = newline"
  shows "\<exists>m ms. finditer kerkocite_regex (IGNORECASE OR MULTILINE)
      (pre @ ''KerkoCite.ItemAlsoKnownAs: '' @ ids @ post) = Inr (m # ms) \<and> mgroup m = Some ids"
proof -
  define ts where "ts = Bol # Star Space #
    map One (map Lit ''KerkoCite'' @ [Dot] @ map Lit ''ItemAlsoKnownAs'') @
    [Star Space, One (Lit CHR '':''), Star Space, GOpen, Star Dot, GClose, Eol]"
  define fl where "fl = IGNORECASE OR MULTILINE"
  define rest where "rest = ''KerkoCite.ItemAlsoKnownAs: '' @ ids @ post"
  have c: "compile kerkocite_regex = Some ts"
    unfolding ts_def by (rule compiled_kerkocite)
  have "\<forall>i < length pre. rmatch ts fl no_cap (rev (take i pre) @ [], drop i pre @ rest) = None"
    using first unfolding match_at_def c fl_def rest_def by simp
  from scan_skip[OF this] have s: "finditer_from ts fl ([], pre @ rest) =
      finditer_from ts fl (rev pre, rest)"
    by simp
  have b: "rev pre = [] \<or> hd (rev pre) = newline"
    using start by (auto simp: hd_rev)
  have m: "rmatch ts fl no_cap (rev pre, ''KerkoCite.ItemAlsoKnownAs'' @ '': '' @ ids @ post) =
      Some ((rev (''KerkoCite.ItemAlsoKnownAs'' @ '': '' @ ids) @ rev pre, post),
        \<lparr>opened = Some (ids @ post), group1 = Some ids\<rparr>)"
    unfolding ts_def
    by (rule label_line_match[OF fl_def _ _ _ _ b ids post])
      (simp_all add: fl_def flags_simps newline_def isspace_def)
  then have m': "rmatch ts fl no_cap (rev pre, rest) =
      Some ((rev (''KerkoCite.ItemAlsoKnownAs'' @ '': '' @ ids) @ rev pre, post),
        \<lparr>opened = Some (ids @ post), group1 = Some ids\<rparr>)"
    by (simp add: rest_def)
  have "\<exists>m ms. finditer_from ts fl (rev pre, rest) = m # ms \<and> mgroup m = Some ids"
    by (subst finditer_from.simps) (simp add: m')
  with s show ?thesis
    unfolding finditer_def c fl_def rest_def by simp
qed

lemma extra_extract:
  assumes "item_data item ''extra'' = Some (PStr s)"
  shows "do_extract other (TransformerExtractor (ItemDataExtractor ''extra'') ts) item =
    apply_transformers ts (PStr s)"
  using assms by (simp add: dict_get_def bind_def)

lemma split_value: "split sep (PStr s) = (if sep = [] then Inl ValueError
    else Inr (PList (map PStr (split_from sep [] s))))"
  by (simp add: split_def on_str_def str_split_def bind_def)

text \<open>
  Claim C1, amended. Let the Extra text hold a line
  \<^verbatim>\<open>KerkoCite.ItemAlsoKnownAs: <ids>\<close>, where \<^verbatim>\<open><ids>\<close> is not empty and starts with a
  character that is not white space, and let no match of the pattern start before
  that line. Then the extractor returns \<^verbatim>\<open><ids>\<close> split at every single space,
  whatever follows the line.
\<close>

theorem kerkocite_first_matching_line:
  assumes extra: "item_data item ''extra'' =
      Some (PStr (pre @ ''KerkoCite.ItemAlsoKnownAs: '' @ ids @ post))"
    and start: "pre = [] \<or> last pre = newline"
    and first: "\<forall>i < length pre. match_at kerkocite_regex (IGNORECASE OR MULTILINE)
        (pre @ ''KerkoCite.ItemAlsoKnownAs: '' @ ids @ post) i = None"
    and ids: "ids \<noteq> []" "\<not> isspace (hd ids)" "newline \<notin> set ids"
    and post: "post = [] \<or> hd post = newline"
  shows "do_extract other alternate_id_kerkocite item =
    Inr (PList (map PStr (split_from '' '' [] ids)))"
proof -
  from kerkocite_finditer[OF start first ids post] obtain m ms where
    f: "finditer kerkocite_regex (IGNORECASE OR MULTILINE)
      (pre @ ''KerkoCite.ItemAlsoKnownAs: '' @ ids @ post) = Inr (m # ms)"
    and g: "mgroup m = Some ids"
    by blast
  have "find kerkocite_regex (IGNORECASE OR MULTILINE) 1
      (PStr (pre @ ''KerkoCite.ItemAlsoKnownAs: '' @ ids @ post)) = Inr (PStr ids)"
    using find_first[OF f] by (simp add: group_val_def g)
  then show ?thesis
    unfolding alternate_id_kerkocite_def extra_extract[OF extra]
    by (simp add: bind_def split_value)
qed

text \<open>
  On an Extra text of three lines: the line of the specification's example is the
  second one, and no match starts in the first.
\<close>

theorem kerkocite_first_matching_line_witness:
  "do_extract no_other alternate_id_kerkocite
     (item_with_extra ((''DOI: 10.5281/zenodo.1'' @ [newline]) @
        ''KerkoCite.ItemAlsoKnownAs: '' @ ''10.1/xyz'' @ newline # ''shortDOI: 10/abc'')) =
   Inr (PList [PStr ''10.1/xyz''])"
proof -
  have e: "item_data (item_with_extra ((''DOI: 10.5281/zenodo.1'' @ [newline]) @
        ''KerkoCite.ItemAlsoKnownAs: '' @ ''10.1/xyz'' @ newline # ''shortDOI: 10/abc'')) ''extra'' =
      Some (PStr ((''DOI: 10.5281/zenodo.1'' @ [newline]) @
        ''KerkoCite.ItemAlsoKnownAs: '' @ ''10.1/xyz'' @ newline # ''shortDOI: 10/abc''))"
    by (simp add: item_with_extra_def)
  have f: "\<forall>i < length (''DOI: 10.5281/zenodo.1'' @ [newline]).
      match_at kerkocite_regex (IGNORECASE OR MULTILINE)
        ((''DOI: 10.5281/zenodo.1'' @ [newline]) @
          ''KerkoCite.ItemAlsoKnownAs: '' @ ''10.1/xyz'' @ newline # ''shortDOI: 10/abc'') i = None"
    by code_simp
  have "do_extract no_other alternate_id_kerkocite
     (item_with_extra ((''DOI: 10.5281/zenodo.1'' @ [newline]) @
        ''KerkoCite.ItemAlsoKnownAs: '' @ ''10.1/xyz'' @ newline # ''shortDOI: 10/abc'')) =
    Inr (PList (map PStr (split_from '' '' [] ''10.1/xyz'')))"
    by (rule kerkocite_first_matching_line[OF e _ f]) (simp_all add: isspace_def newline_def)
  then show ?thesis
    by simp
qed

text \<open>
  The claim as stated fails: the Extra text holds the line of the specification's
  example, after another line of the same form, and the identifier of the example is
  not returned.
\<close>

theorem kerkocite_later_line_counterexample:
  "do_extract no_other alternate_id_kerkocite
     (item_with_extra (''KerkoCite.ItemAlsoKnownAs: a'' @ newline #
        ''KerkoCite.ItemAlsoKnownAs: 10.1/xyz'')) = Inr (PList [PStr ''a''])"
  by code_simp

text \<open>
  Claim C4. The claim does not hold of the code: in the Extra text below no line has
  the form \<^verbatim>\<open>shortDOI: <t>\<close>, the first line has the label and no token, the second
  has no label, and neither matches the pattern when it stands alone; yet the
  extractor returns the text of the second line, because the white space after the
  colon extends over the line break.
\<close>

theorem shortdoi_token_from_next_line:
  "finditer shortdoi_regex (IGNORECASE OR MULTILINE) ''shortDOI:'' = Inr [] \<and>
   finditer shortdoi_regex (IGNORECASE OR MULTILINE) ''OCLC:12345'' = Inr [] \<and>
   do_extract no_other alternate_id_shortdoi
     (item_with_extra (''shortDOI:'' @ newline # ''OCLC:12345'')) =
   Inr (PList [PStr ''OCLC:12345''])"
  by code_simp

text \<open>
  Claim C8. The claim does not hold of the code: each of the two lines below matches
  the pattern when it stands alone, the first with an empty value, and on the text of
  both lines the extractor returns the second line as the value of the first, for
  the same reason as under C4.
\<close>

theorem also_known_as_takes_next_line:
  "map_option (group1 \<circ> snd)
     (match_at edtechhub_regex (IGNORECASE OR MULTILINE) ''EdTechHub.ItemAlsoKnownAs:'' 0) =
     Some (Some []) \<and>
   map_option (group1 \<circ> snd)
     (match_at edtechhub_regex (IGNORECASE OR MULTILINE) ''EdTechHub.ItemAlsoKnownAs: A1;B2'' 0) =
     Some (Some ''A1;B2'') \<and>
   do_extract no_other alternate_id_edtechhub
     (item_with_extra (''EdTechHub.ItemAlsoKnownAs:'' @ newline # ''EdTechHub.ItemAlsoKnownAs: A1;B2'')) =
     Inr (PList [PStr ''EdTechHub.ItemAlsoKnownAs: A1'', PStr ''B2'']) \<and>
   do_extract no_other alternate_id_kerkocite
     (item_with_extra (''KerkoCite.ItemAlsoKnownAs:'' @ newline # ''KerkoCite.ItemAlsoKnownAs: A1 B2'')) =
     Inr (PList [PStr ''KerkoCite.ItemAlsoKnownAs:'', PStr ''A1'', PStr ''B2''])"
  by code_simp

section \<open>The fallback of the data directory\<close>

lemma accepted_parsed: "succeeds (env_parsed parse env name dflt) = accepted parse env name"
  by (simp add: env_parsed_def accepted_def succeeds_def split: option.splits)

lemma succeeds_bind: "succeeds (bind r f) = (\<exists>x. r = Inr x \<and> succeeds (f x))"
  by (cases r) (simp_all add: bind_def succeeds_def)

lemma succeeds_parsed_bind:
  "succeeds (bind (env_parsed parse env name dflt) f) =
     (accepted parse env name \<and>
      succeeds (f (case env name of None \<Rightarrow> dflt | Some v \<Rightarrow> the (parse v))))"
  by (auto simp: env_parsed_def accepted_def bind_def succeeds_def split: option.splits)

lemma DevelopmentConfig_succeeds:
  "succeeds (DevelopmentConfig l env) =
     (accepted (parse_bool l) env ''ASSETS_DEBUG'' \<and>
      accepted (parse_int l) env ''KERKO_ZOTERO_START'' \<and>
      accepted (parse_int l) env ''KERKO_ZOTERO_END'')"
  unfolding DevelopmentConfig_def
  by (simp only: succeeds_parsed_bind) (simp add: env_str_default bind_def succeeds_def)

lemma ProductionConfig_succeeds:
  "succeeds (ProductionConfig l env) = accepted (parse_bool l) env ''ASSETS_DEBUG''"
  unfolding ProductionConfig_def
  by (simp only: succeeds_parsed_bind) (simp add: env_str_default bind_def succeeds_def)

lemma load_module_succeeds_iff:
  "succeeds (load_module l cwd file dotenv environ) =
     (succeeds (Config l cwd file (read_env dotenv environ)) \<and>
      succeeds (DevelopmentConfig l (read_env dotenv environ)) \<and>
      succeeds (ProductionConfig l (read_env dotenv environ)))"
  by (cases "Config l cwd file (read_env dotenv environ)";
      cases "DevelopmentConfig l (read_env dotenv environ)";
      cases "ProductionConfig l (read_env dotenv environ)")
    (simp_all add: load_module_def Let_def succeeds_def bind_def)

lemma load_module_config:
  assumes "load_module l cwd file dotenv environ = Inr m"
  shows "Config l cwd file (read_env dotenv environ) = Inr (config m)"
  using assms unfolding load_module_def Let_def by (elim bindE) auto

text \<open>
  Claim C9, amended. Let one of the six variables that the class \<^verbatim>\<open>Config\<close> reads be
  unset after \<^verbatim>\<open>env.read_env()\<close> and the five others set. If the unset variable is one
  of the five required ones, the class body and the loading of the module raise the
  error of that variable. If it is \<^verbatim>\<open>KERKO_DATA_DIR\<close>, no read of the class
  \<^verbatim>\<open>Config\<close> raises: the class body does what it does when \<^verbatim>\<open>KERKO_DATA_DIR\<close> is set to
  the path \<^verbatim>\<open>data/kerko\<close> under the absolute directory of \<^verbatim>\<open>FLASK_APP\<close>, and the
  attribute is that path. Loading the module then succeeds exactly when the library
  builds the composer and each of \<^verbatim>\<open>ASSETS_DEBUG\<close>, \<^verbatim>\<open>KERKO_ZOTERO_START\<close> and
  \<^verbatim>\<open>KERKO_ZOTERO_END\<close> is unset or holds a value that its parser takes.
\<close>

theorem data_dir_is_the_only_fallback:
  assumes v: "v \<in> set config_vars" and unset: "read_env dotenv environ v = None"
    and others: "\<forall>w \<in> set config_vars. w \<noteq> v \<longrightarrow> read_env dotenv environ w \<noteq> None"
  shows "(v \<noteq> ''KERKO_DATA_DIR'' \<longrightarrow>
        Config l cwd file (read_env dotenv environ) = Inl (EnvError v) \<and>
        load_module l cwd file dotenv environ = Inl (EnvError v)) \<and>
     (v = ''KERKO_DATA_DIR'' \<longrightarrow>
        (\<exists>fa. read_env dotenv environ ''FLASK_APP'' = Some fa \<and>
           Config l cwd file (read_env dotenv environ) =
             Config l cwd file ((read_env dotenv environ)(''KERKO_DATA_DIR'' \<mapsto>
               path_str (joinpath (joinpath (absolute cwd (parent (Path fa))) ''data'') ''kerko''))) \<and>
           succeeds (Config l cwd file (read_env dotenv environ)) =
             succeeds (KERKO_COMPOSER l ''en'') \<and>
           succeeds (load_module l cwd file dotenv environ) =
             (succeeds (KERKO_COMPOSER l ''en'') \<and>
              accepted (parse_bool l) (read_env dotenv environ) ''ASSETS_DEBUG'' \<and>
              accepted (parse_int l) (read_env dotenv environ) ''KERKO_ZOTERO_START'' \<and>
              accepted (parse_int l) (read_env dotenv environ) ''KERKO_ZOTERO_END'') \<and>
           (\<forall>m. load_module l cwd file dotenv environ = Inr m \<longrightarrow>
              map_of (config m) ''KERKO_DATA_DIR'' =
                Some (SStr (path_str (joinpath (joinpath (absolute cwd (parent (Path fa))) ''data'') ''kerko''))))))"
proof (cases "v = ''KERKO_DATA_DIR''")
  case True
  from Config_fallback[of v "read_env dotenv environ" l cwd "file", OF v unset others] True
  obtain fa where fa: "read_env dotenv environ ''FLASK_APP'' = Some fa"
    and same: "Config l cwd file (read_env dotenv environ) =
             Config l cwd file ((read_env dotenv environ)(''KERKO_DATA_DIR'' \<mapsto>
               path_str (joinpath (joinpath (absolute cwd (parent (Path fa))) ''data'') ''kerko'')))"
    and s: "succeeds (Config l cwd file (read_env dotenv environ)) =
             succeeds (KERKO_COMPOSER l ''en'')"
    and a: "\<forall>c. Config l cwd file (read_env dotenv environ) = Inr c \<longrightarrow>
              map_of c ''KERKO_DATA_DIR'' =
                Some (SStr (path_str (joinpath (joinpath (absolute cwd (parent (Path fa))) ''data'') ''kerko'')))"
    by blast
  have lm: "succeeds (load_module l cwd file dotenv environ) =
             (succeeds (KERKO_COMPOSER l ''en'') \<and>
              accepted (parse_bool l) (read_env dotenv environ) ''ASSETS_DEBUG'' \<and>
              accepted (parse_int l) (read_env dotenv environ) ''KERKO_ZOTERO_START'' \<and>
              accepted (parse_int l) (read_env dotenv environ) ''KERKO_ZOTERO_END'')"
    unfolding load_module_succeeds_iff s DevelopmentConfig_succeeds ProductionConfig_succeeds
    by blast
  have am: "\<forall>m. load_module l cwd file dotenv environ = Inr m \<longrightarrow>
              map_of (config m) ''KERKO_DATA_DIR'' =
                Some (SStr (path_str (joinpath (joinpath (absolute cwd (parent (Path fa))) ''data'') ''kerko'')))"
    using a load_module_config by blast
  from fa same s lm am True show ?thesis
    by blast
next
  case False
  from Config_fallback[of v "read_env dotenv environ" l cwd "file", OF v unset others] False
  have c: "Config l cwd file (read_env dotenv environ) = Inl (EnvError v)"
    by blast
  from load_module_Config_Inl[OF c] c False show ?thesis
    by blast
qed

text \<open>
  On the instance no variable but the five required ones is set, and there is no
  \<^verbatim>\<open>.env\<close> file.
\<close>

theorem data_dir_is_the_only_fallback_witness:
  "succeeds (load_module sample_lib ''/srv/a'' ''/srv/a/app/config.py'' None sample_env) \<and>
   (\<exists>m. load_module sample_lib ''/srv/a'' ''/srv/a/app/config.py'' None sample_env = Inr m \<and>
      map_of (config m) ''KERKO_DATA_DIR'' = Some (SStr ''/srv/a/data/kerko''))"
proof -
  have e: "read_env None sample_env = sample_env"
    by (simp add: read_env_def)
  have h: "''KERKO_DATA_DIR'' \<in> set config_vars" "read_env None sample_env ''KERKO_DATA_DIR'' = None"
    "\<forall>w \<in> set config_vars. w \<noteq> ''KERKO_DATA_DIR'' \<longrightarrow> read_env None sample_env w \<noteq> None"
    unfolding e by (simp_all add: config_vars_def required_vars_def sample_env_def sample_vars_def)
  have fa: "sample_env ''FLASK_APP'' = Some ''kerkoapp.py''"
    by (simp add: sample_env_def sample_vars_def)
  have acc: "accepted (parse_bool sample_lib) sample_env ''ASSETS_DEBUG''"
    "accepted (parse_int sample_lib) sample_env ''KERKO_ZOTERO_START''"
    "accepted (parse_int sample_lib) sample_env ''KERKO_ZOTERO_END''"
    by (simp_all add: accepted_def sample_env_def sample_vars_def)
  from data_dir_is_the_only_fallback[OF h, of sample_lib "''/srv/a''" "''/srv/a/app/config.py''"]
  obtain fa' where f: "sample_env ''FLASK_APP'' = Some fa'"
    and s: "succeeds (load_module sample_lib ''/srv/a'' ''/srv/a/app/config.py'' None sample_env) =
             (succeeds (KERKO_COMPOSER sample_lib ''en'') \<and>
              accepted (parse_bool sample_lib) sample_env ''ASSETS_DEBUG'' \<and>
              accepted (parse_int sample_lib) sample_env ''KERKO_ZOTERO_START'' \<and>
              accepted (parse_int sample_lib) sample_env ''KERKO_ZOTERO_END'')"
    and d: "\<forall>m. load_module sample_lib ''/srv/a'' ''/srv/a/app/config.py'' None sample_env = Inr m \<longrightarrow>
      map_of (config m) ''KERKO_DATA_DIR'' =
      Some (SStr (path_str (joinpath (joinpath (absolute ''/srv/a'' (parent (Path fa'))) ''data'') ''kerko'')))"
    unfolding e by blast
  from s sample_composer acc
  have ok: "succeeds (load_module sample_lib ''/srv/a'' ''/srv/a/app/config.py'' None sample_env)"
    by simp
  then obtain m where m: "load_module sample_lib ''/srv/a'' ''/srv/a/app/config.py'' None sample_env = Inr m"
    by (auto simp: succeeds_Inr)
  from f fa have "fa' = ''kerkoapp.py''"
    by simp
  with d m have "map_of (config m) ''KERKO_DATA_DIR'' = Some (SStr ''/srv/a/data/kerko'')"
    by (simp only: sample_data_dir)
  with ok m show ?thesis
    by (intro conjI exI[of _ m]) (simp_all only: simp_thms)
qed

text \<open>
  The claim as stated fails: the five required variables are set,
  \<^verbatim>\<open>KERKO_DATA_DIR\<close> is unset, and loading the module raises, because the value of
  \<^verbatim>\<open>ASSETS_DEBUG\<close> is not a truth value.
\<close>

theorem invalid_assets_debug_counterexample:
  "map (map_of ((''ASSETS_DEBUG'', ''maybe'') # sample_vars)) required_vars =
     [Some ''kerkoapp.py'', Some ''s3cret'', Some ''k3y'', Some ''2405685'', Some ''group''] \<and>
   map_of ((''ASSETS_DEBUG'', ''maybe'') # sample_vars) ''KERKO_DATA_DIR'' = None \<and>
   load_module sample_lib ''/srv/a'' ''/srv/a/app/config.py'' None
     (map_of ((''ASSETS_DEBUG'', ''maybe'') # sample_vars)) =
     Inl (EnvValidationError ''ASSETS_DEBUG'')"
proof -
  define env where "env = map_of ((''ASSETS_DEBUG'', ''maybe'') # sample_vars)"
  from sample_composer obtain k where k: "KERKO_COMPOSER sample_lib ''en'' = Inr k"
    by (auto simp: succeeds_Inr)
  have "\<exists>c. Config sample_lib ''/srv/a'' ''/srv/a/app/config.py'' env = Inr c"
    using Config_succeeds[of env "''kerkoapp.py''" "''s3cret''" "''k3y''" "''2405685''" "''group''"
        sample_lib k "''/srv/a''" "''/srv/a/app/config.py''"] k
    by (simp add: env_def sample_vars_def)
  then obtain c where c: "Config sample_lib ''/srv/a'' ''/srv/a/app/config.py'' env = Inr c"
    by blast
  have d: "DevelopmentConfig sample_lib env = Inl (EnvValidationError ''ASSETS_DEBUG'')"
    by (simp add: DevelopmentConfig_def env_parsed_def bind_def env_def sample_lib_def)
  have "load_module sample_lib ''/srv/a'' ''/srv/a/app/config.py'' None env =
      Inl (EnvValidationError ''ASSETS_DEBUG'')"
    by (simp add: load_module_def Let_def read_env_def c d bind_def)
  then show ?thesis
    unfolding env_def by (simp add: required_vars_def sample_vars_def)
qed

end
